theory Spec2Isabelle
  imports Complex_Main
begin

section \<open>The page cache balancer of ZGC (zPageCacheBalance.cpp)\<close>

text \<open>
  The balancer converts cached pages of one size class into pages of the other one.
  This theory embeds \<^verbatim>\<open>ZPageCacheBalance\<close>: the sizing solver
  (\<^verbatim>\<open>determine_balance_necessity\<close> and the \<^verbatim>\<open>calculate_*\<close> helpers), the
  loaner/debtor assignment, and the top-level flow \<^verbatim>\<open>balance\<close>.

  Conventions of the embedding.
  \<^item> A \<^verbatim>\<open>size_t\<close> is a natural number below \<open>2 ^ 64\<close>; sums, products and differences
    of \<^verbatim>\<open>size_t\<close> values wrap around modulo \<open>2 ^ 64\<close> (\<open>size_t_add\<close>, \<open>size_t_mul\<close>,
    \<open>size_t_sub\<close>).
  \<^item> A \<^verbatim>\<open>double\<close> is the real number it denotes. Every arithmetic operation on doubles
    and every conversion to \<^verbatim>\<open>double\<close> rounds the exact result to the nearest binary64
    number, ties to even (\<open>round_double\<close>, with 53 bits of precision and gradual
    underflow). Infinities and NaN are not represented: the embedding describes the code
    as long as no operation overflows \<open>2 ^ 1024\<close> or divides by zero, and the properties
    below bound the rates accordingly. The conversion \<^verbatim>\<open>(size_t) x\<close> truncates; C++ defines
    it for \<open>0 \<le> x < 2 ^ 64\<close> only.
  \<^item> \<^verbatim>\<open>assert\<close> is compiled into debug builds only, \<^verbatim>\<open>guarantee\<close> and
    \<^verbatim>\<open>ShouldNotReachHere\<close> into every build; all three stop the VM and are the \<open>Inl\<close>
    results here. The field \<open>debug_build\<close> of the environment tells whether assertions are
    checked.
  \<^item> The constants \<^verbatim>\<open>ZPageSizeSmall\<close>, \<^verbatim>\<open>ZPageSizeMedium\<close>, the flags
    \<^verbatim>\<open>ZMinPageCachePercent\<close> and \<^verbatim>\<open>ZBalancePageCache\<close>, the heap capacity, the two
    allocation rates and \<^verbatim>\<open>ZStatCycle::is_warm\<close> are declared outside the two files;
    they are the fields of the record \<open>env\<close>. \<^verbatim>\<open>ZMinPageCachePercent\<close> is an unsigned
    integer flag.
  \<^item> Logging and timing are left out.
\<close>

subsection \<open>Values read from the rest of the VM\<close>

record env =
  ZPageSizeSmall :: nat
  ZPageSizeMedium :: nat
  ZMinPageCachePercent :: nat
  ZBalancePageCache :: bool
  heap_capacity :: nat
  small_rate :: real
  medium_rate :: real
  is_warm :: bool
  is_ConcurrentGC_thread :: bool
  debug_build :: bool

subsection \<open>Errors\<close>

datatype error =
    AssertFailed string
  | GuaranteeFailed string
  | ShouldNotReachHere
  | Fatal string

definition assert_that :: "env \<Rightarrow> bool \<Rightarrow> string \<Rightarrow> error + 'a \<Rightarrow> error + 'a" where
  "assert_that e p msg k = (if debug_build e \<and> \<not> p then Inl (AssertFailed msg) else k)"

definition guarantee :: "bool \<Rightarrow> string \<Rightarrow> error + 'a \<Rightarrow> error + 'a" where
  "guarantee p msg k = (if p then k else Inl (GuaranteeFailed msg))"

definition and_then :: "error + 'a \<Rightarrow> ('a \<Rightarrow> error + 'b) \<Rightarrow> error + 'b" where
  "and_then r k = (case r of Inl err \<Rightarrow> Inl err | Inr x \<Rightarrow> k x)"

subsection \<open>Arithmetic of \<^verbatim>\<open>size_t\<close>\<close>

definition size_t_add :: "nat \<Rightarrow> nat \<Rightarrow> nat" where
  "size_t_add a b = (a + b) mod 2 ^ 64"

definition size_t_mul :: "nat \<Rightarrow> nat \<Rightarrow> nat" where
  "size_t_mul a b = (a * b) mod 2 ^ 64"

definition size_t_sub :: "nat \<Rightarrow> nat \<Rightarrow> nat" where
  "size_t_sub a b = (a + (2 ^ 64 - b mod 2 ^ 64)) mod 2 ^ 64"

subsection \<open>Arithmetic of \<^verbatim>\<open>double\<close>\<close>

text \<open>Rounding a real number to the nearest integer, a tie to the even one.\<close>

definition round_to_even :: "real \<Rightarrow> int" where
  "round_to_even y =
     (let f = \<lfloor>y\<rfloor>; r = y - of_int f
      in if r < 1 / 2 then f else if 1 / 2 < r then f + 1 else if even f then f else f + 1)"

text \<open>
  The exponent of the unit in the last place of the binary64 numbers around \<open>x\<close>: 52 below
  the exponent of \<open>x\<close>, and \<open>- 1074\<close> for the subnormal numbers.
\<close>

definition ulp_exponent :: "real \<Rightarrow> int" where
  "ulp_exponent x = max \<lfloor>log 2 \<bar>x\<bar>\<rfloor> (- 1022) - 52"

definition round_double :: "real \<Rightarrow> real" where
  "round_double x =
     (if x = 0 then 0
      else 2 powi ulp_exponent x * of_int (round_to_even (x / 2 powi ulp_exponent x)))"

definition double_add :: "real \<Rightarrow> real \<Rightarrow> real" where
  "double_add x y = round_double (x + y)"

definition double_mul :: "real \<Rightarrow> real \<Rightarrow> real" where
  "double_mul x y = round_double (x * y)"

definition double_div :: "real \<Rightarrow> real \<Rightarrow> real" where
  "double_div x y = round_double (x / y)"

definition double_of_size_t :: "nat \<Rightarrow> real" where
  "double_of_size_t n = round_double (real n)"

definition size_t_of_double :: "real \<Rightarrow> nat" where
  "size_t_of_double x = nat \<lfloor>x\<rfloor> mod 2 ^ 64"

text \<open>A finite, moderately sized \<^verbatim>\<open>double\<close>: what an allocation rate is.\<close>

definition is_double :: "real \<Rightarrow> bool" where
  "is_double x \<longleftrightarrow> round_double x = x \<and> \<bar>x\<bar> \<le> 2 ^ 1000"

subsection \<open>Pages and the balancer\<close>

datatype page_type = ZPageTypeSmall | ZPageTypeMedium | ZPageTypeLarge

record page =
  ptype :: page_type
  vstart :: nat
  psize :: nat
  pmem :: nat
  mapped :: bool
  in_use :: bool

record balancer =
  before_relocation :: bool
  small_selected_to :: nat
  medium_selected_to :: nat
  available_small :: nat
  available_medium :: nat
  target_small :: nat
  target_medium :: nat
  loaner_type :: page_type
  debtor_type :: page_type
  loaner_count :: nat
  debtor_count :: nat
  loaner_list :: "page list"
  debtor_list :: "page list"

text \<open>The constructor: the counts start at zero, the loaner is small, the debtor medium.\<close>

definition ZPageCacheBalance :: "env \<Rightarrow> bool \<Rightarrow> nat \<Rightarrow> nat \<Rightarrow> error + balancer" where
  "ZPageCacheBalance e before sel_small sel_medium =
     assert_that e (ZBalancePageCache e) ''sanity''
       (Inr \<lparr>before_relocation = before,
             small_selected_to = sel_small, medium_selected_to = sel_medium,
             available_small = 0, available_medium = 0,
             target_small = 0, target_medium = 0,
             loaner_type = ZPageTypeSmall, debtor_type = ZPageTypeMedium,
             loaner_count = 0, debtor_count = 0,
             loaner_list = [], debtor_list = []\<rparr>)"

subsection \<open>The sizing solver\<close>

definition MAX2 :: "nat \<Rightarrow> nat \<Rightarrow> nat" where
  "MAX2 a b = (if a > b then a else b)"

definition calculate_total_size :: "env \<Rightarrow> nat \<Rightarrow> nat \<Rightarrow> nat" where
  "calculate_total_size e small_count medium_count =
     size_t_add (size_t_mul (ZPageSizeSmall e) small_count)
       (size_t_mul (ZPageSizeMedium e) medium_count)"

definition available_page_cache_size :: "env \<Rightarrow> balancer \<Rightarrow> nat" where
  "available_page_cache_size e b =
     calculate_total_size e (available_small b) (available_medium b)"

definition calculate_maximal_small_for_medium :: "env \<Rightarrow> balancer \<Rightarrow> nat \<Rightarrow> error + nat" where
  "calculate_maximal_small_for_medium e b medium =
     assert_that e (available_page_cache_size e b > size_t_mul medium (ZPageSizeMedium e))
       ''enough page cache''
       (Inr (size_t_sub (available_page_cache_size e b) (size_t_mul medium (ZPageSizeMedium e))
               div ZPageSizeSmall e))"

definition calculate_maximal_medium_for_small :: "env \<Rightarrow> balancer \<Rightarrow> nat \<Rightarrow> error + nat" where
  "calculate_maximal_medium_for_small e b small =
     assert_that e (available_page_cache_size e b > size_t_mul small (ZPageSizeSmall e))
       ''enough page cache''
       (Inr (size_t_sub (available_page_cache_size e b) (size_t_mul small (ZPageSizeSmall e))
               div ZPageSizeMedium e))"

text \<open>
  \<^verbatim>\<open>medium_rate / (medium_rate + small_rate + 0.1)\<close> and
  \<^verbatim>\<open>(size_t) (available_page_cache_size() * predicted_medium_ratio / ZPageSizeMedium)\<close>,
  operation by operation; the literal \<^verbatim>\<open>0.1\<close> is the double nearest to one tenth.
\<close>

definition calculate_optimal_medium :: "env \<Rightarrow> balancer \<Rightarrow> nat" where
  "calculate_optimal_medium e b =
     (if before_relocation b then available_medium b
      else
        let predicted_medium_ratio =
              double_div (medium_rate e)
                (double_add (double_add (medium_rate e) (small_rate e)) (round_double (1 / 10)))
        in size_t_of_double
             (double_div
                (double_mul (double_of_size_t (available_page_cache_size e b))
                   predicted_medium_ratio)
                (double_of_size_t (ZPageSizeMedium e))))"

definition calculate_optimal_small :: "env \<Rightarrow> balancer \<Rightarrow> error + nat" where
  "calculate_optimal_small e b =
     (if before_relocation b then Inr (available_small b)
      else calculate_maximal_small_for_medium e b (calculate_optimal_medium e b))"

text \<open>
  \<^verbatim>\<open>(size_t) (capacity * ZMinPageCachePercent / 100.0 / ZPageSize)\<close>: the product is a
  \<^verbatim>\<open>size_t\<close>, converted to \<^verbatim>\<open>double\<close> for the two divisions.
\<close>

definition calculate_minimal_medium :: "env \<Rightarrow> balancer \<Rightarrow> nat" where
  "calculate_minimal_medium e b =
     (let result = MAX2 (size_t_of_double
                     (double_div
                        (double_div
                           (double_of_size_t
                              (size_t_mul (heap_capacity e) (ZMinPageCachePercent e)))
                           100)
                        (double_of_size_t (ZPageSizeMedium e)))) 1
      in if before_relocation b then MAX2 (medium_selected_to b) result else result)"

definition calculate_minimal_small :: "env \<Rightarrow> balancer \<Rightarrow> nat" where
  "calculate_minimal_small e b =
     (let result = MAX2 (size_t_of_double
                     (double_div
                        (double_div
                           (double_of_size_t
                              (size_t_mul (heap_capacity e) (ZMinPageCachePercent e)))
                           100)
                        (double_of_size_t (ZPageSizeSmall e)))) 1;
          result = (if before_relocation b then MAX2 (small_selected_to b) result else result)
      in result)"

text \<open>
  \<^verbatim>\<open>determine_balance_necessity\<close>: the feasibility gate, the optimum, the three-way
  projection onto the lower bounds, and the do-balance test. The result is the returned
  flag and the balancer with its targets set.
\<close>

definition determine_balance_necessity :: "env \<Rightarrow> balancer \<Rightarrow> error + (bool \<times> balancer)" where
  "determine_balance_necessity e b =
     (let minimal_medium = calculate_minimal_medium e b;
          minimal_small = calculate_minimal_small e b
      in
      if calculate_total_size e minimal_small minimal_medium > available_page_cache_size e b
      then Inr (False, b)
      else
        let optimal_medium = calculate_optimal_medium e b in
        and_then (calculate_optimal_small e b) (\<lambda>optimal_small.
        guarantee (calculate_total_size e optimal_small optimal_medium = available_page_cache_size e b)
          ''The optimum should not change the size of the page cache.''
        (and_then
          (if optimal_medium \<ge> minimal_medium \<and> optimal_small \<ge> minimal_small then
             Inr (b\<lparr>target_medium := optimal_medium, target_small := optimal_small\<rparr>)
           else if optimal_medium < minimal_medium then
             (let b1 = b\<lparr>target_medium := minimal_medium\<rparr> in
              and_then (calculate_maximal_small_for_medium e b1 (target_medium b1)) (\<lambda>s.
              let b2 = b1\<lparr>target_small := s\<rparr> in
              guarantee (target_small b2 \<ge> minimal_small) ''small page lower bound'' (Inr b2)))
           else if optimal_small < minimal_small then
             and_then (calculate_maximal_medium_for_small e b minimal_small) (\<lambda>m.
             let b1 = b\<lparr>target_medium := m\<rparr> in
             guarantee (target_medium b1 \<ge> minimal_medium) ''medium page lower bound''
             (and_then (calculate_maximal_small_for_medium e b1 (target_medium b1)) (\<lambda>s.
              let b2 = b1\<lparr>target_small := s\<rparr> in
              guarantee (target_small b2 \<ge> minimal_small) ''small page lower bound'' (Inr b2))))
           else Inl ShouldNotReachHere)
          (\<lambda>b'.
             guarantee (calculate_total_size e (target_small b') (target_medium b')
                          = available_page_cache_size e b')
               ''The target should not change the size of the page cache.''
               (if target_medium b' = available_medium b' then Inr (False, b')
                else Inr (True, b'))))))"

definition calculate_loaner_and_debtor :: "balancer \<Rightarrow> balancer" where
  "calculate_loaner_and_debtor b =
     (if target_small b > available_small b then
        b\<lparr>debtor_count := size_t_sub (target_small b) (available_small b),
          debtor_type := ZPageTypeSmall,
          loaner_count := size_t_sub (available_medium b) (target_medium b),
          loaner_type := ZPageTypeMedium\<rparr>
      else if target_medium b > available_medium b then
        b\<lparr>debtor_count := size_t_sub (target_medium b) (available_medium b),
          debtor_type := ZPageTypeMedium,
          loaner_count := size_t_sub (available_small b) (target_small b),
          loaner_type := ZPageTypeSmall\<rparr>
      else b)"

subsection \<open>The allocator, the page cache and the page table\<close>

text \<open>
  The state the balancer works on: the page cache and the detached list of the page
  allocator, the pool of free physical memory, the allocator's used counter, the page table,
  and how often the allocator lock has been taken.
\<close>

record heap_state =
  cache_small :: "page list"
  cache_medium :: "page list"
  detached :: "page list"
  physical_free :: nat
  used :: nat
  next_vstart :: nat
  pagetable :: "nat \<rightharpoonup> page"
  lock_count :: nat

text \<open>\<^verbatim>\<open>ZLocker locker(&_page_allocator->_lock)\<close>: one more acquisition.\<close>

definition ZLocker :: "heap_state \<Rightarrow> heap_state" where
  "ZLocker h = h\<lparr>lock_count := lock_count h + 1\<rparr>"

text \<open>Modelled from the spec: \<^verbatim>\<open>ZPageCache::small_page_count\<close> (zPageCache), count by class.\<close>

definition small_page_count :: "heap_state \<Rightarrow> nat" where
  "small_page_count h = length (cache_small h)"

text \<open>Modelled from the spec: \<^verbatim>\<open>ZPageCache::medium_page_count\<close> (zPageCache), count by class.\<close>

definition medium_page_count :: "heap_state \<Rightarrow> nat" where
  "medium_page_count h = length (cache_medium h)"

text \<open>Modelled from the spec: \<^verbatim>\<open>ZPageCache::loan_pages\<close> (zPageCache), which removes up to
  \<open>n\<close> pages of the given class from the cache and hands them to the caller.\<close>

definition loan_pages :: "nat \<Rightarrow> page_type \<Rightarrow> heap_state \<Rightarrow> page list \<times> heap_state" where
  "loan_pages n t h =
     (case t of
        ZPageTypeSmall \<Rightarrow> (take n (cache_small h), h\<lparr>cache_small := drop n (cache_small h)\<rparr>)
      | ZPageTypeMedium \<Rightarrow> (take n (cache_medium h), h\<lparr>cache_medium := drop n (cache_medium h)\<rparr>)
      | ZPageTypeLarge \<Rightarrow> ([], h))"

text \<open>Modelled from the spec: \<^verbatim>\<open>ZPhysicalMemoryManager::unmap\<close>, which drops the virtual
  mapping of a page; the page keeps its physical memory.\<close>

definition physical_unmap :: "page \<Rightarrow> page" where
  "physical_unmap p = p\<lparr>mapped := False\<rparr>"

text \<open>Modelled from the spec: \<^verbatim>\<open>ZPhysicalMemoryManager::free\<close>, which returns the physical
  memory of a page to the pool.\<close>

definition physical_free_pmem :: "page \<Rightarrow> heap_state \<Rightarrow> heap_state" where
  "physical_free_pmem p h = h\<lparr>physical_free := physical_free h + pmem p\<rparr>"

text \<open>Modelled from the spec: \<^verbatim>\<open>ZPageAllocator::create_page\<close>, which takes fresh physical
  memory from the pool and a fresh virtual range and produces an unmapped page; running out
  of physical memory is fatal.\<close>

definition create_page :: "page_type \<Rightarrow> nat \<Rightarrow> heap_state \<Rightarrow> error + (page \<times> heap_state)" where
  "create_page t bytes h =
     (if physical_free h < bytes then Inl (Fatal ''out of physical memory'')
      else Inr (\<lparr>ptype = t, vstart = next_vstart h, psize = bytes, pmem = bytes,
                  mapped = False, in_use = True\<rparr>,
                h\<lparr>physical_free := physical_free h - bytes,
                  next_vstart := next_vstart h + bytes\<rparr>))"

text \<open>Modelled from the spec: \<^verbatim>\<open>ZPageAllocator::increase_used\<close>, which bumps the used counter.\<close>

definition increase_used :: "nat \<Rightarrow> bool \<Rightarrow> heap_state \<Rightarrow> heap_state" where
  "increase_used bytes reclaimed h = h\<lparr>used := used h + bytes\<rparr>"

text \<open>Modelled from the spec: \<^verbatim>\<open>ZPageAllocator::map_page\<close>, which maps the page.\<close>

definition map_page :: "page \<Rightarrow> page" where
  "map_page p = p\<lparr>mapped := True\<rparr>"

text \<open>Modelled from the spec: \<^verbatim>\<open>ZPage::reset\<close>, which resets the mutator metadata.\<close>

definition page_reset :: "page \<Rightarrow> page" where
  "page_reset p = p\<lparr>in_use := False\<rparr>"

text \<open>Modelled from the spec: \<^verbatim>\<open>ZPageTable::insert\<close>, which indexes the page by address.\<close>

definition pagetable_insert :: "page \<Rightarrow> heap_state \<Rightarrow> heap_state" where
  "pagetable_insert p h = h\<lparr>pagetable := (pagetable h)(vstart p \<mapsto> p)\<rparr>"

text \<open>Modelled from the spec: \<^verbatim>\<open>ZHeap::release_page\<close>, which releases the page into the
  page cache of its class.\<close>

definition release_page :: "page \<Rightarrow> bool \<Rightarrow> heap_state \<Rightarrow> heap_state" where
  "release_page p reclaimed h =
     (case ptype p of
        ZPageTypeSmall \<Rightarrow> h\<lparr>cache_small := p # cache_small h\<rparr>
      | ZPageTypeMedium \<Rightarrow> h\<lparr>cache_medium := p # cache_medium h\<rparr>
      | ZPageTypeLarge \<Rightarrow> h)"

subsection \<open>The balancing protocol\<close>

definition initialize_page_count :: "heap_state \<Rightarrow> balancer \<Rightarrow> balancer" where
  "initialize_page_count h b =
     (let b1 = b\<lparr>available_small := small_page_count h\<rparr>;
          b2 = b1\<lparr>available_medium := medium_page_count h\<rparr>;
          b3 = b2\<lparr>target_small := available_small b2\<rparr>
      in b3\<lparr>target_medium := available_medium b3\<rparr>)"

definition need_to_balance :: "env \<Rightarrow> balancer \<times> heap_state \<Rightarrow> error + (bool \<times> balancer \<times> heap_state)" where
  "need_to_balance e s =
     (case s of (b, h) \<Rightarrow>
        if \<not> is_warm e then Inr (False, b, h)
        else
          let h1 = ZLocker h;
              b1 = initialize_page_count h1 b
          in and_then (determine_balance_necessity e b1) (\<lambda>(necessary, b2).
               if necessary then
                 (let b3 = calculate_loaner_and_debtor b2;
                      (loaned, h2) = loan_pages (loaner_count b3) (loaner_type b3) h1
                  in Inr (True, b3\<lparr>loaner_list := loaner_list b3 @ loaned\<rparr>, h2))
               else Inr (False, b2, h1)))"

definition unmap_pages :: "balancer \<times> heap_state \<Rightarrow> balancer \<times> heap_state" where
  "unmap_pages s = (case s of (b, h) \<Rightarrow> (b\<lparr>loaner_list := map physical_unmap (loaner_list b)\<rparr>, h))"

text \<open>The loop of \<^verbatim>\<open>free_physical_memory\<close> over the loaner list, first page first.\<close>

fun free_loaner_pages :: "page list \<Rightarrow> heap_state \<Rightarrow> heap_state" where
  "free_loaner_pages [] h = h"
| "free_loaner_pages (p # ps) h =
     (let h1 = ZLocker h;
          h2 = physical_free_pmem p h1;
          p' = p\<lparr>pmem := 0\<rparr>;
          h3 = h2\<lparr>detached := detached h2 @ [p']\<rparr>
      in free_loaner_pages ps h3)"

definition free_physical_memory :: "balancer \<times> heap_state \<Rightarrow> balancer \<times> heap_state" where
  "free_physical_memory s =
     (case s of (b, h) \<Rightarrow> (b\<lparr>loaner_list := []\<rparr>, free_loaner_pages (loaner_list b) h))"

definition unmap :: "balancer \<times> heap_state \<Rightarrow> balancer \<times> heap_state" where
  "unmap s = free_physical_memory (unmap_pages s)"

text \<open>The loop of \<^verbatim>\<open>create_pages_for_debtor\<close>: \<open>n\<close> iterations are left.\<close>

fun create_debtor_pages ::
  "nat \<Rightarrow> page_type \<Rightarrow> nat \<Rightarrow> page list \<times> heap_state \<Rightarrow> error + (page list \<times> heap_state)" where
  "create_debtor_pages 0 t bytes s = Inr s"
| "create_debtor_pages (Suc n) t bytes s =
     (case s of (ps, h) \<Rightarrow>
        and_then (create_page t bytes (ZLocker h)) (\<lambda>(p, h1).
          create_debtor_pages n t bytes (ps @ [p], increase_used bytes False h1)))"

definition create_pages_for_debtor :: "env \<Rightarrow> balancer \<times> heap_state \<Rightarrow> error + (balancer \<times> heap_state)" where
  "create_pages_for_debtor e s =
     (case s of (b, h) \<Rightarrow>
        let debtor_page_size =
              (if debtor_type b = ZPageTypeSmall then ZPageSizeSmall e else ZPageSizeMedium e)
        in and_then (create_debtor_pages (debtor_count b) (debtor_type b) debtor_page_size
                       (debtor_list b, h))
             (\<lambda>(ps, h1). Inr (b\<lparr>debtor_list := ps\<rparr>, h1)))"

text \<open>The loop of \<^verbatim>\<open>map_pages\<close> over the debtor list.\<close>

fun map_debtor_pages :: "env \<Rightarrow> page list \<Rightarrow> error + page list" where
  "map_debtor_pages e [] = Inr []"
| "map_debtor_pages e (p # ps) =
     assert_that e (\<not> mapped p) ''ZPage should not be mapped right after page creation.''
       (and_then (map_debtor_pages e ps) (\<lambda>ps'. Inr (map_page p # ps')))"

definition map_pages :: "env \<Rightarrow> balancer \<times> heap_state \<Rightarrow> error + (balancer \<times> heap_state)" where
  "map_pages e s =
     (case s of (b, h) \<Rightarrow>
        and_then (map_debtor_pages e (debtor_list b)) (\<lambda>ps. Inr (b\<lparr>debtor_list := ps\<rparr>, h)))"

text \<open>The loop of \<^verbatim>\<open>insert_pages_to_page_cache\<close> over the debtor list, first page first.\<close>

fun publish_debtor_pages :: "page list \<Rightarrow> heap_state \<Rightarrow> heap_state" where
  "publish_debtor_pages [] h = h"
| "publish_debtor_pages (p # ps) h =
     (let p' = page_reset p
      in publish_debtor_pages ps (release_page p' False (pagetable_insert p' h)))"

definition insert_pages_to_page_cache :: "balancer \<times> heap_state \<Rightarrow> balancer \<times> heap_state" where
  "insert_pages_to_page_cache s =
     (case s of (b, h) \<Rightarrow> (b\<lparr>debtor_list := []\<rparr>, publish_debtor_pages (debtor_list b) h))"

definition remap :: "env \<Rightarrow> balancer \<times> heap_state \<Rightarrow> error + (balancer \<times> heap_state)" where
  "remap e s =
     and_then (create_pages_for_debtor e s) (\<lambda>s1.
     and_then (map_pages e s1) (\<lambda>s2.
     Inr (insert_pages_to_page_cache s2)))"

definition balance :: "env \<Rightarrow> balancer \<times> heap_state \<Rightarrow> error + (balancer \<times> heap_state)" where
  "balance e s =
     assert_that e (ZBalancePageCache e) ''sanity''
    (assert_that e (is_ConcurrentGC_thread e) ''must balance in a concurrent GC thread''
    (and_then (need_to_balance e s) (\<lambda>(necessary, s1).
       if necessary then remap e (unmap s1) else Inr s1)))"

subsection \<open>A concrete cache\<close>

text \<open>
  The example of the comment above \<^verbatim>\<open>determine_balance_necessity\<close>: 2 MB small pages,
  32 MB medium pages, 8640 small and no medium pages cached, after relocation; a heap of
  16000 MB with \<^verbatim>\<open>ZMinPageCachePercent\<close> = 10 gives the lower bounds 800 and 50; the
  allocation rates are 200 MB/s (small) and 1 MB/s (medium).
\<close>

definition example_env :: env where
  "example_env =
     \<lparr>ZPageSizeSmall = 2097152, ZPageSizeMedium = 33554432,
      ZMinPageCachePercent = 10, ZBalancePageCache = True,
      heap_capacity = 16777216000,
      small_rate = 209715200, medium_rate = 1048576,
      is_warm = True, is_ConcurrentGC_thread = True, debug_build = True\<rparr>"

definition example_balancer :: balancer where
  "example_balancer =
     \<lparr>before_relocation = False, small_selected_to = 0, medium_selected_to = 0,
      available_small = 8640, available_medium = 0,
      target_small = 8640, target_medium = 0,
      loaner_type = ZPageTypeSmall, debtor_type = ZPageTypeMedium,
      loaner_count = 0, debtor_count = 0,
      loaner_list = [], debtor_list = []\<rparr>"

definition example_page :: "page_type \<Rightarrow> nat \<Rightarrow> nat \<Rightarrow> page" where
  "example_page t start bytes =
     \<lparr>ptype = t, vstart = start, psize = bytes, pmem = bytes, mapped = True, in_use = False\<rparr>"

definition example_heap :: heap_state where
  "example_heap =
     \<lparr>cache_small = map (\<lambda>i. example_page ZPageTypeSmall (i * 2097152) 2097152) [0 ..< 8640],
      cache_medium = [],
      detached = [], physical_free = 0, used = 0, next_vstart = 18119393280,
      pagetable = Map.empty, lock_count = 0\<rparr>"





text \<open>161 medium pages cached, rates of 15 bytes/s (small) and 1 byte/s (medium).\<close>

definition uneven_rate_env :: env where
  "uneven_rate_env = example_env\<lparr>small_rate := 15, medium_rate := 1\<rparr>"

definition medium_only_balancer :: balancer where
  "medium_only_balancer =
     example_balancer\<lparr>available_small := 0, available_medium := 161,
       target_small := 0, target_medium := 161\<rparr>"


section \<open>Auxiliary facts\<close>

subsection \<open>Rounding\<close>

lemma round_to_even_of_int [simp]: "round_to_even (of_int n) = n"
  by (simp add: round_to_even_def)

lemma round_to_even_bounds: "\<lfloor>y\<rfloor> \<le> round_to_even y" "round_to_even y \<le> \<lfloor>y\<rfloor> + 1"
  by (simp_all add: round_to_even_def Let_def)

lemma round_to_even_mono:
  assumes "x \<le> y"
  shows "round_to_even x \<le> round_to_even y"
proof (cases "\<lfloor>x\<rfloor> = \<lfloor>y\<rfloor>")
  case True
  then show ?thesis
    using assms by (auto simp: round_to_even_def Let_def)
next
  case False
  then have "\<lfloor>x\<rfloor> < \<lfloor>y\<rfloor>"
    using assms floor_mono [of x y] by linarith
  then show ?thesis
    using round_to_even_bounds(2) [of x] round_to_even_bounds(1) [of y] by linarith
qed

lemma powr_of_int_2: "(2::real) powr (of_int n) = 2 powi n"
  by (simp add: powr_real_of_int')

lemma floor_log2_bounds:
  assumes "0 < x"
  shows "2 powi \<lfloor>log 2 x\<rfloor> \<le> x" and "x < 2 powi (\<lfloor>log 2 x\<rfloor> + 1)"
proof -
  have "2 powr (of_int \<lfloor>log 2 x\<rfloor>) \<le> 2 powr (log 2 x)"
    by (rule powr_mono) simp_all
  then have "2 powr (of_int \<lfloor>log 2 x\<rfloor>) \<le> x"
    using assms by simp
  then show "2 powi \<lfloor>log 2 x\<rfloor> \<le> x"
    unfolding powr_of_int_2 .
  have "log 2 x < of_int (\<lfloor>log 2 x\<rfloor> + 1)"
    by simp
  then have "2 powr (log 2 x) < 2 powr (of_int (\<lfloor>log 2 x\<rfloor> + 1))"
    by (rule powr_less_mono) simp
  then have "x < 2 powr (of_int (\<lfloor>log 2 x\<rfloor> + 1))"
    using assms by simp
  then show "x < 2 powi (\<lfloor>log 2 x\<rfloor> + 1)"
    unfolding powr_of_int_2 .
qed

lemma floor_log2_eq:
  assumes "2 powi e \<le> x" "x < 2 powi (e + 1)"
  shows "\<lfloor>log 2 x\<rfloor> = e"
proof -
  have "(0::real) < 2 powi e"
    by simp
  then have pos: "0 < x"
    using assms(1) by linarith
  have a: "2 powr (of_int e) \<le> x" and b: "x < 2 powr (of_int (e + 1))"
    unfolding powr_of_int_2 using assms by simp_all
  have "of_int e \<le> log 2 x"
    using a pos by (subst le_log_iff) simp_all
  moreover have "log 2 x < of_int (e + 1)"
    using b pos by (subst log_less_iff) simp_all
  ultimately have "of_int e \<le> log 2 x" "log 2 x < of_int (e + 1)"
    by simp_all
  then show ?thesis
    by linarith
qed

lemma round_double_eval:
  assumes "2 powi e \<le> x" "x < 2 powi (e + 1)"
  shows "round_double x
           = 2 powi (max e (- 1022) - 52)
               * of_int (round_to_even (x / 2 powi (max e (- 1022) - 52)))"
proof -
  have "(0::real) < 2 powi e"
    by simp
  then have pos: "0 < x"
    using assms(1) by linarith
  have "ulp_exponent x = max e (- 1022) - 52"
    using floor_log2_eq [OF assms] pos by (simp add: ulp_exponent_def)
  then show ?thesis
    using pos by (simp add: round_double_def)
qed

lemma round_double_nonneg:
  assumes "0 \<le> x"
  shows "0 \<le> round_double x"
proof (cases "x = 0")
  case True
  then show ?thesis by (simp add: round_double_def)
next
  case False
  have "0 \<le> x / 2 powi ulp_exponent x"
    using assms by simp
  then have "0 \<le> \<lfloor>x / 2 powi ulp_exponent x\<rfloor>"
    by simp
  then have "0 \<le> round_to_even (x / 2 powi ulp_exponent x)"
    using round_to_even_bounds(1) [of "x / 2 powi ulp_exponent x"] by linarith
  then show ?thesis
    using False by (simp add: round_double_def)
qed

lemma ulp_exponent_mono:
  assumes "0 < x" "x \<le> y"
  shows "ulp_exponent x \<le> ulp_exponent y"
proof -
  have "log 2 x \<le> log 2 y"
    using assms by simp
  then have "\<lfloor>log 2 x\<rfloor> \<le> \<lfloor>log 2 y\<rfloor>"
    by (rule floor_mono)
  then show ?thesis
    using assms by (simp add: ulp_exponent_def)
qed

lemma round_double_upper:
  assumes "0 < x"
  shows "round_double x \<le> 2 powi (ulp_exponent x + 53)"
proof -
  define u where "u = ulp_exponent x"
  have "\<lfloor>log 2 x\<rfloor> + 1 \<le> u + 53"
    using assms by (simp add: u_def ulp_exponent_def)
  then have "(2::real) powi (\<lfloor>log 2 x\<rfloor> + 1) \<le> 2 powi (u + 53)"
    by (intro power_int_increasing) simp_all
  then have "x \<le> 2 powi (u + 53)"
    using floor_log2_bounds(2) [OF assms] by linarith
  then have "x / 2 powi u \<le> 2 powi (u + 53) / 2 powi u"
    by (simp add: divide_right_mono)
  also have "\<dots> = of_int (2 ^ 53)"
    by (simp add: power_int_add)
  finally have "round_to_even (x / 2 powi u) \<le> round_to_even (of_int (2 ^ 53))"
    by (rule round_to_even_mono)
  then have "of_int (round_to_even (x / 2 powi u)) \<le> (2::real) ^ 53"
    by (simp only: round_to_even_of_int) (metis of_int_le_iff of_int_numeral of_int_power)
  then have "(2::real) powi u * of_int (round_to_even (x / 2 powi u)) \<le> 2 powi u * 2 ^ 53"
    by (intro mult_left_mono) simp_all
  also have "\<dots> = 2 powi (u + 53)"
    by (simp add: power_int_add)
  finally have "2 powi u * of_int (round_to_even (x / 2 powi u)) \<le> (2::real) powi (u + 53)" .
  moreover have "round_double x = 2 powi u * of_int (round_to_even (x / 2 powi u))"
    using assms(1) by (simp add: round_double_def u_def)
  ultimately show ?thesis
    unfolding u_def [symmetric] by linarith
qed

lemma round_double_lower:
  assumes "0 < x" "- 1022 \<le> \<lfloor>log 2 x\<rfloor>"
  shows "2 powi (ulp_exponent x + 52) \<le> round_double x"
proof -
  define u where "u = ulp_exponent x"
  have u: "u + 52 = \<lfloor>log 2 x\<rfloor>"
    using assms by (simp add: u_def ulp_exponent_def)
  have "2 powi (u + 52) \<le> x"
    using floor_log2_bounds(1) [OF assms(1)] u by simp
  then have "2 powi (u + 52) / 2 powi u \<le> x / 2 powi u"
    by (simp add: divide_right_mono)
  moreover have "2 powi (u + 52) / 2 powi u = (of_int (2 ^ 52) :: real)"
    by (simp add: power_int_add)
  ultimately have "round_to_even (of_int (2 ^ 52)) \<le> round_to_even (x / 2 powi u)"
    by (metis round_to_even_mono)
  then have "(2::real) ^ 52 \<le> of_int (round_to_even (x / 2 powi u))"
    by (simp only: round_to_even_of_int) (metis of_int_le_iff of_int_numeral of_int_power)
  then have "(2::real) powi u * 2 ^ 52 \<le> 2 powi u * of_int (round_to_even (x / 2 powi u))"
    by (intro mult_left_mono) simp_all
  moreover have "2 powi u * 2 ^ 52 = (2::real) powi (u + 52)"
    by (simp add: power_int_add)
  moreover have "round_double x = 2 powi u * of_int (round_to_even (x / 2 powi u))"
    using assms(1) by (simp add: round_double_def u_def)
  ultimately show ?thesis
    unfolding u_def [symmetric] by linarith
qed

lemma round_double_mono:
  assumes "0 \<le> x" "x \<le> y"
  shows "round_double x \<le> round_double y"
proof (cases "x = 0")
  case True
  then show ?thesis
    using round_double_nonneg [of y] assms by (simp add: round_double_def)
next
  case False
  then have x: "0 < x" and y: "0 < y"
    using assms by simp_all
  have le: "ulp_exponent x \<le> ulp_exponent y"
    using x assms(2) by (rule ulp_exponent_mono)
  show ?thesis
  proof (cases "ulp_exponent x = ulp_exponent y")
    case True
    have "x / 2 powi ulp_exponent y \<le> y / 2 powi ulp_exponent y"
      using assms(2) by (simp add: divide_right_mono)
    then have "round_to_even (x / 2 powi ulp_exponent y) \<le> round_to_even (y / 2 powi ulp_exponent y)"
      by (rule round_to_even_mono)
    then have "(2::real) powi ulp_exponent y * of_int (round_to_even (x / 2 powi ulp_exponent y))
        \<le> 2 powi ulp_exponent y * of_int (round_to_even (y / 2 powi ulp_exponent y))"
      by (intro mult_left_mono) simp_all
    then show ?thesis
      using x y True by (simp add: round_double_def)
  next
    case False
    then have lt: "ulp_exponent x + 53 \<le> ulp_exponent y + 52"
      using le by simp
    have "- 1074 \<le> ulp_exponent x"
      by (simp add: ulp_exponent_def)
    then have "- 1022 < ulp_exponent y + 52"
      using lt by simp
    then have "- 1022 \<le> \<lfloor>log 2 y\<rfloor>"
      using y by (simp add: ulp_exponent_def max_def split: if_splits)
    from round_double_lower [OF y this]
    have "2 powi (ulp_exponent y + 52) \<le> round_double y" .
    moreover have "(2::real) powi (ulp_exponent x + 53) \<le> 2 powi (ulp_exponent y + 52)"
      using lt by (intro power_int_increasing) simp_all
    ultimately show ?thesis
      using round_double_upper [OF x] by linarith
  qed
qed

lemma round_double_exact:
  assumes "0 < m" "m < 2 ^ 53" "- 1074 \<le> z"
  shows "round_double (of_int m * 2 powi z) = of_int m * 2 powi z"
proof -
  define x :: real where "x = of_int m * 2 powi z"
  define u where "u = ulp_exponent x"
  have pos: "0 < x"
    using assms(1) by (simp add: x_def)
  have "of_int m < (2::real) ^ 53"
    using assms(2) by (metis of_int_less_iff of_int_numeral of_int_power)
  then have "x < 2 ^ 53 * 2 powi z"
    by (simp add: x_def)
  also have "\<dots> = 2 powi (53 + z)"
    by (simp add: power_int_add)
  finally have "2 powi \<lfloor>log 2 x\<rfloor> < (2::real) powi (53 + z)"
    using floor_log2_bounds(1) [OF pos] by linarith
  then have "\<lfloor>log 2 x\<rfloor> < 53 + z"
    using power_int_increasing [of "53 + z" "\<lfloor>log 2 x\<rfloor>" "2::real"]
    by (cases "\<lfloor>log 2 x\<rfloor> < 53 + z") simp_all
  then have uz: "u \<le> z"
    using assms(3) pos by (simp add: u_def ulp_exponent_def)
  have "x / 2 powi u = of_int m * 2 powi (z - u)"
    by (simp add: x_def power_int_diff)
  also have "\<dots> = of_int m * 2 ^ nat (z - u)"
    using uz by (simp add: power_int_def)
  also have "\<dots> = of_int (m * 2 ^ nat (z - u))"
    by simp
  finally have "round_to_even (x / 2 powi u) = m * 2 ^ nat (z - u)"
    by (simp only: round_to_even_of_int)
  then have "(2::real) powi u * of_int (round_to_even (x / 2 powi u))
               = 2 powi u * (of_int m * 2 ^ nat (z - u))"
    by simp
  also have "\<dots> = 2 powi u * (of_int m * 2 powi (z - u))"
    using uz by (simp add: power_int_def)
  also have "\<dots> = x"
    by (simp add: x_def power_int_diff)
  finally have "2 powi u * of_int (round_to_even (x / 2 powi u)) = x" .
  moreover have "round_double x = 2 powi u * of_int (round_to_even (x / 2 powi u))"
    using pos by (simp add: round_double_def u_def)
  ultimately show ?thesis
    unfolding x_def by linarith
qed

lemma size_t_add_small: "a + b < 2 ^ 64 \<Longrightarrow> size_t_add a b = a + b"
  by (simp add: size_t_add_def)

lemma size_t_mul_small: "a * b < 2 ^ 64 \<Longrightarrow> size_t_mul a b = a * b"
  by (simp add: size_t_mul_def)

lemma size_t_sub_small:
  assumes "b \<le> a" "a < 2 ^ 64"
  shows "size_t_sub a b = a - b"
proof -
  have b: "b mod 2 ^ 64 = b"
    using assms by simp
  have "a + (2 ^ 64 - b) = (a - b) + 1 * 2 ^ 64"
    using assms by simp
  then have "(a + (2 ^ 64 - b)) mod 2 ^ 64 = (a - b) mod 2 ^ 64"
    by (simp only: mod_mult_self1)
  then show ?thesis
    using assms by (simp add: size_t_sub_def b)
qed

lemma calculate_total_size_small:
  assumes "ZPageSizeSmall e * s + ZPageSizeMedium e * m < 2 ^ 64"
  shows "calculate_total_size e s m = ZPageSizeSmall e * s + ZPageSizeMedium e * m"
proof -
  have "ZPageSizeSmall e * s < 2 ^ 64" "ZPageSizeMedium e * m < 2 ^ 64"
    using assms by simp_all
  then show ?thesis
    using assms by (simp add: calculate_total_size_def size_t_mul_small size_t_add_small)
qed

lemma MAX2_max: "MAX2 a b = max a b"
  by (simp add: MAX2_def max_def)

lemma minimal_small_ge1: "1 \<le> calculate_minimal_small e b"
  by (simp add: calculate_minimal_small_def MAX2_max Let_def le_max_iff_disj)

lemma minimal_medium_ge1: "1 \<le> calculate_minimal_medium e b"
  by (simp add: calculate_minimal_medium_def MAX2_max Let_def le_max_iff_disj)

lemma available_target_upd [simp]:
  "available_page_cache_size e (b\<lparr>target_medium := m\<rparr>) = available_page_cache_size e b"
  "available_page_cache_size e (b\<lparr>target_small := s\<rparr>) = available_page_cache_size e b"
  by (simp_all add: available_page_cache_size_def)

lemma maximal_small_target_upd:
  "calculate_maximal_small_for_medium e (b\<lparr>target_medium := m\<rparr>) k
     = calculate_maximal_small_for_medium e b k"
  by (simp add: calculate_maximal_small_for_medium_def)

subsection \<open>Doubles\<close>

lemma double_0_1: "round_double (1 / 10) = 3602879701896397 / 36028797018963968"
  by (subst round_double_eval [where e = "- 4"])
    (simp_all add: round_to_even_def power_int_minus field_simps)

lemma round_double_0 [simp]: "round_double 0 = 0"
  by (simp add: round_double_def)

lemma round_double_nat:
  assumes "n < 2 ^ 53"
  shows "round_double (real n) = real n"
proof (cases "n = 0")
  case True
  then show ?thesis by simp
next
  case False
  have "int n < 2 ^ 53"
    using assms by (metis of_nat_less_iff of_nat_numeral of_nat_power)
  with round_double_exact [of "int n" 0] False show ?thesis
    by simp
qed

lemma round_double_nat_div_pow2:
  assumes "n < 2 ^ 53" "j \<le> 1074"
  shows "round_double (real n / 2 ^ j) = real n / 2 ^ j"
proof (cases "n = 0")
  case True
  then show ?thesis by simp
next
  case False
  have "int n < 2 ^ 53"
    using assms(1) by (metis of_nat_less_iff of_nat_numeral of_nat_power)
  moreover have "real n / 2 ^ j = of_int (int n) * 2 powi (- int j)"
    by (simp add: power_int_minus field_simps)
  ultimately show ?thesis
    using round_double_exact [of "int n" "- int j"] False assms(2) by simp
qed

lemma round_double_pow2: "round_double (2 ^ j) = 2 ^ j"
  using round_double_exact [of 1 "int j"] by simp

lemma predicted_ratio_bounds:
  assumes "0 \<le> s" "0 \<le> m" "round_double m = m"
  defines "r \<equiv> double_div m (double_add (double_add m s) (round_double (1 / 10)))"
  shows "0 \<le> r" and "r \<le> 1"
proof -
  define c :: real where "c = round_double (1 / 10)"
  define d where "d = double_add (double_add m s) c"
  have c: "0 < c" "round_double c = c"
  proof -
    show "0 < c"
      by (simp add: c_def double_0_1)
    show "round_double c = c"
      unfolding c_def double_0_1
      by (subst round_double_eval [where e = "- 4"])
        (simp_all add: round_to_even_def power_int_minus)
  qed
  have ms: "m \<le> double_add m s"
    using round_double_mono [of m "m + s"] assms by (simp add: double_add_def)
  then have "m \<le> double_add m s + c" and "c \<le> double_add m s + c"
    using c(1) assms(2) by simp_all
  then have "round_double m \<le> d" and "round_double c \<le> d"
    using assms(2) c(1) by (simp_all add: d_def double_add_def round_double_mono)
  then have md: "m \<le> d" and dpos: "0 < d"
    using assms(3) c by simp_all
  have r: "r = round_double (m / d)"
    by (simp add: r_def d_def c_def double_div_def)
  have "0 \<le> m / d" "m / d \<le> 1"
    using md dpos assms(2) by simp_all
  then have "0 \<le> round_double (m / d)" and "round_double (m / d) \<le> round_double 1"
    by (simp_all add: round_double_nonneg round_double_mono)
  moreover have "round_double 1 = 1"
    using round_double_nat [of 1] by simp
  ultimately show "0 \<le> r" and "r \<le> 1"
    by (simp_all add: r)
qed

lemma optimal_medium_le:
  assumes after: "\<not> before_relocation b"
    and M: "ZPageSizeMedium e = 2 ^ j" and j: "j < 64"
    and A: "available_page_cache_size e b < 2 ^ 53"
    and rates: "0 \<le> small_rate e" "0 \<le> medium_rate e"
      "round_double (medium_rate e) = medium_rate e"
  shows "calculate_optimal_medium e b \<le> available_page_cache_size e b div ZPageSizeMedium e"
proof -
  define A where "A = available_page_cache_size e b"
  define r where "r = double_div (medium_rate e)
    (double_add (double_add (medium_rate e) (small_rate e)) (round_double (1 / 10)))"
  have r: "0 \<le> r" "r \<le> 1"
    unfolding r_def using rates by (rule predicted_ratio_bounds)+
  have Ad: "double_of_size_t A = real A"
    using A by (simp add: double_of_size_t_def A_def round_double_nat)
  have Md: "double_of_size_t (ZPageSizeMedium e) = 2 ^ j"
    by (simp add: double_of_size_t_def M round_double_pow2)
  define y where "y = double_mul (real A) r"
  have "0 \<le> real A * r" "real A * r \<le> real A"
    using r by (simp_all add: mult_left_le)
  then have "0 \<le> y" and "y \<le> round_double (real A)"
    by (simp_all add: y_def double_mul_def round_double_nonneg round_double_mono)
  then have y: "0 \<le> y" "y \<le> real A"
    using A by (simp_all add: A_def round_double_nat)
  define z where "z = double_div y (2 ^ j)"
  have "0 \<le> y / 2 ^ j" "y / 2 ^ j \<le> real A / 2 ^ j"
    using y by (simp_all add: divide_right_mono)
  then have "0 \<le> z" and "z \<le> round_double (real A / 2 ^ j)"
    by (simp_all add: z_def double_div_def round_double_nonneg round_double_mono)
  then have z: "0 \<le> z" "z \<le> real A / 2 ^ j"
    using A j by (simp_all add: A_def round_double_nat_div_pow2)
  have "\<lfloor>z\<rfloor> \<le> \<lfloor>real A / 2 ^ j\<rfloor>"
    using z(2) by (rule floor_mono)
  also have "\<dots> = int (A div 2 ^ j)"
    by (metis floor_divide_of_nat_eq of_nat_numeral of_nat_power)
  finally have fl: "nat \<lfloor>z\<rfloor> \<le> A div 2 ^ j"
    by linarith
  have "A div 2 ^ j \<le> A"
    by simp
  then have "nat \<lfloor>z\<rfloor> < 2 ^ 53"
    using fl A unfolding A_def by linarith
  moreover have "(2::nat) ^ 53 \<le> 2 ^ 64"
    by simp
  ultimately have "nat \<lfloor>z\<rfloor> < 2 ^ 64"
    by linarith
  then have "size_t_of_double z = nat \<lfloor>z\<rfloor>"
    by (simp add: size_t_of_double_def)
  moreover have "calculate_optimal_medium e b = size_t_of_double z"
    using after by (simp add: calculate_optimal_medium_def z_def y_def r_def Ad Md A_def [symmetric])
  ultimately show ?thesis
    using fl by (simp add: A_def M)
qed

lemma available_lt: "available_page_cache_size e b < 2 ^ 64"
  by (simp add: available_page_cache_size_def calculate_total_size_def size_t_add_def)

lemma maximal_small_for_medium_value:
  assumes "k * ZPageSizeMedium e \<le> available_page_cache_size e b"
  shows "calculate_maximal_small_for_medium e b k
           = assert_that e (k * ZPageSizeMedium e < available_page_cache_size e b)
               ''enough page cache''
               (Inr ((available_page_cache_size e b - k * ZPageSizeMedium e)
                       div ZPageSizeSmall e))"
proof -
  have "k * ZPageSizeMedium e < 2 ^ 64"
    using assms available_lt [of e b] by linarith
  then have "size_t_mul k (ZPageSizeMedium e) = k * ZPageSizeMedium e"
    by (rule size_t_mul_small)
  then show ?thesis
    using assms available_lt [of e b]
    by (simp add: calculate_maximal_small_for_medium_def size_t_sub_small)
qed

lemma maximal_medium_for_small_value:
  assumes "k * ZPageSizeSmall e \<le> available_page_cache_size e b"
  shows "calculate_maximal_medium_for_small e b k
           = assert_that e (k * ZPageSizeSmall e < available_page_cache_size e b)
               ''enough page cache''
               (Inr ((available_page_cache_size e b - k * ZPageSizeSmall e)
                       div ZPageSizeMedium e))"
proof -
  have "k * ZPageSizeSmall e < 2 ^ 64"
    using assms available_lt [of e b] by linarith
  then have "size_t_mul k (ZPageSizeSmall e) = k * ZPageSizeSmall e"
    by (rule size_t_mul_small)
  then show ?thesis
    using assms available_lt [of e b]
    by (simp add: calculate_maximal_medium_for_small_def size_t_sub_small)
qed

lemma saturate:
  fixes S M :: nat
  assumes "0 < S" "S dvd M" "S dvd A" "k * M \<le> A"
  shows "S * ((A - k * M) div S) + M * k = A"
proof -
  have "S dvd (A - k * M)"
    using assms(2,3) by (simp add: dvd_diff_nat)
  then have "S * ((A - k * M) div S) = A - k * M"
    by simp
  then show ?thesis
    using assms(4) by (simp add: mult.commute)
qed

lemma pow2_dvd: "i \<le> j \<Longrightarrow> (2::nat) ^ i dvd 2 ^ j"
  by (simp add: le_imp_power_dvd)

text \<open>What the optimum is, once the assertion in \<open>calculate_optimal_small\<close> does not stop.\<close>

lemma optimum_saturates:
  assumes S: "ZPageSizeSmall e = 2 ^ i" and M: "ZPageSizeMedium e = 2 ^ j"
    and ij: "i \<le> j" and j: "j < 64"
    and B: "ZPageSizeSmall e * available_small b + ZPageSizeMedium e * available_medium b < 2 ^ 53"
    and rates: "0 \<le> small_rate e" "0 \<le> medium_rate e"
      "round_double (medium_rate e) = medium_rate e"
    and no_stop: "\<not> (debug_build e \<and> \<not> before_relocation b
                     \<and> calculate_optimal_medium e b * ZPageSizeMedium e
                         = available_page_cache_size e b)"
  shows "\<exists>s. calculate_optimal_small e b = Inr s
           \<and> ZPageSizeSmall e * s + ZPageSizeMedium e * calculate_optimal_medium e b
               = available_page_cache_size e b"
proof -
  have "ZPageSizeSmall e * available_small b + ZPageSizeMedium e * available_medium b < 2 ^ 64"
    using B by (rule less_le_trans) simp
  then have A: "available_page_cache_size e b
      = ZPageSizeSmall e * available_small b + ZPageSizeMedium e * available_medium b"
    by (simp add: available_page_cache_size_def calculate_total_size_small)
  show ?thesis
  proof (cases "before_relocation b")
    case True
    then show ?thesis
      by (simp add: calculate_optimal_small_def calculate_optimal_medium_def A)
  next
    case False
    have A53: "available_page_cache_size e b < 2 ^ 53"
      using B A by simp
    from optimal_medium_le [OF False M j A53 rates]
    have "calculate_optimal_medium e b
            \<le> available_page_cache_size e b div ZPageSizeMedium e" .
    then have le: "calculate_optimal_medium e b * ZPageSizeMedium e
                     \<le> available_page_cache_size e b"
      by (simp add: less_eq_div_iff_mult_less_eq M)
    have Spos: "0 < ZPageSizeSmall e" and dvd: "ZPageSizeSmall e dvd ZPageSizeMedium e"
      using ij by (simp_all add: S M pow2_dvd)
    have "ZPageSizeSmall e dvd available_page_cache_size e b"
      unfolding A using dvd by simp
    from saturate [OF Spos dvd this le]
    have sat: "ZPageSizeSmall e
        * ((available_page_cache_size e b - calculate_optimal_medium e b * ZPageSizeMedium e)
             div ZPageSizeSmall e)
        + ZPageSizeMedium e * calculate_optimal_medium e b = available_page_cache_size e b" .
    have "debug_build e \<longrightarrow>
        calculate_optimal_medium e b * ZPageSizeMedium e < available_page_cache_size e b"
      using no_stop False le by auto
    then have "calculate_optimal_small e b
        = Inr ((available_page_cache_size e b - calculate_optimal_medium e b * ZPageSizeMedium e)
                 div ZPageSizeSmall e)"
      using False
      by (auto simp: calculate_optimal_small_def maximal_small_for_medium_value [OF le]
          assert_that_def)
    with sat show ?thesis
      by simp
  qed
qed

lemma optimum_assert_stops:
  assumes M: "ZPageSizeMedium e = 2 ^ j" and j: "j < 64"
    and stop: "debug_build e" "\<not> before_relocation b"
      "calculate_optimal_medium e b * ZPageSizeMedium e = available_page_cache_size e b"
  shows "calculate_optimal_small e b = Inl (AssertFailed ''enough page cache'')"
proof -
  have "calculate_optimal_medium e b * ZPageSizeMedium e \<le> available_page_cache_size e b"
    using stop(3) by simp
  from maximal_small_for_medium_value [OF this] stop show ?thesis
    by (simp add: calculate_optimal_small_def assert_that_def)
qed

lemma determine_returns:
  assumes S: "ZPageSizeSmall e = 2 ^ i" and M: "ZPageSizeMedium e = 2 ^ j"
    and ij: "i \<le> j" and j: "j < 64"
    and B: "ZPageSizeSmall e * available_small b + ZPageSizeMedium e * available_medium b < 2 ^ 53"
    and rates: "0 \<le> small_rate e" "0 \<le> medium_rate e"
      "round_double (medium_rate e) = medium_rate e"
    and feas: "ZPageSizeSmall e * calculate_minimal_small e b
                 + ZPageSizeMedium e * calculate_minimal_medium e b
               \<le> ZPageSizeSmall e * available_small b + ZPageSizeMedium e * available_medium b"
    and no_stop: "\<not> (debug_build e \<and> \<not> before_relocation b
                     \<and> calculate_optimal_medium e b * ZPageSizeMedium e
                         = available_page_cache_size e b)"
  shows "\<exists>ts tm.
           determine_balance_necessity e b
             = Inr (tm \<noteq> available_medium b, b\<lparr>target_medium := tm, target_small := ts\<rparr>)
           \<and> ZPageSizeSmall e * ts + ZPageSizeMedium e * tm
               = ZPageSizeSmall e * available_small b + ZPageSizeMedium e * available_medium b
           \<and> calculate_minimal_small e b \<le> ts \<and> calculate_minimal_medium e b \<le> tm"
proof -
  define A where "A = available_page_cache_size e b"
  define ms where "ms = calculate_minimal_small e b"
  define mm where "mm = calculate_minimal_medium e b"
  define om where "om = calculate_optimal_medium e b"
  have small64: "(2::nat) ^ 53 \<le> 2 ^ 64"
    by simp
  have A_eq: "A = ZPageSizeSmall e * available_small b + ZPageSizeMedium e * available_medium b"
    using B small64 by (simp add: A_def available_page_cache_size_def calculate_total_size_small)
  have A64: "A < 2 ^ 64"
    using B small64 unfolding A_eq by linarith
  have total: "calculate_total_size e s m = A"
    if "ZPageSizeSmall e * s + ZPageSizeMedium e * m = A" for s m
    using that A64 by (simp add: calculate_total_size_small)
  have Spos: "0 < ZPageSizeSmall e" and Mpos: "0 < ZPageSizeMedium e"
    and dvd: "ZPageSizeSmall e dvd ZPageSizeMedium e"
    using ij by (simp_all add: S M pow2_dvd)
  have dvdA: "ZPageSizeSmall e dvd A"
    unfolding A_eq using dvd by simp
  have ms1: "1 \<le> ms" and mm1: "1 \<le> mm"
    using minimal_small_ge1 [of e b] minimal_medium_ge1 [of e b] by (simp_all add: ms_def mm_def)
  have feas': "ZPageSizeSmall e * ms + ZPageSizeMedium e * mm \<le> A"
    using feas by (simp add: A_eq ms_def mm_def)
  have "ZPageSizeSmall e \<le> ZPageSizeSmall e * ms"
    using ms1 by simp
  then have "ZPageSizeMedium e * mm < A"
    using feas' Spos by linarith
  then have mm_lt: "mm * ZPageSizeMedium e < A"
    by (simp add: mult.commute)
  have "ZPageSizeMedium e \<le> ZPageSizeMedium e * mm"
    using mm1 by simp
  then have "ZPageSizeSmall e * ms < A"
    using feas' Mpos by linarith
  then have ms_lt: "ms * ZPageSizeSmall e < A"
    by (simp add: mult.commute)
  have gate: "\<not> calculate_total_size e ms mm > A"
    using feas' A64 by (simp add: calculate_total_size_small)
  from optimum_saturates [OF S M ij j B rates no_stop]
  obtain os where os: "calculate_optimal_small e b = Inr os"
    and opt: "ZPageSizeSmall e * os + ZPageSizeMedium e * om = A"
    by (auto simp: om_def A_def)
  note opt' = total [OF opt]
  consider (both) "mm \<le> om" "ms \<le> os" | (medium) "om < mm" | (small) "mm \<le> om" "os < ms"
    by linarith
  then show ?thesis
  proof cases
    case both
    then have "determine_balance_necessity e b
                 = Inr (om \<noteq> available_medium b, b\<lparr>target_medium := om, target_small := os\<rparr>)"
      using gate os opt'
      by (simp add: determine_balance_necessity_def Let_def and_then_def guarantee_def
          A_def [symmetric] ms_def [symmetric] mm_def [symmetric] om_def [symmetric])
    with both opt show ?thesis
      by (auto simp: A_eq ms_def mm_def)
  next
    case medium
    define s where "s = (A - mm * ZPageSizeMedium e) div ZPageSizeSmall e"
    have le: "mm * ZPageSizeMedium e \<le> available_page_cache_size e b"
      using mm_lt by (simp add: A_def)
    have s: "calculate_maximal_small_for_medium e b mm = Inr s"
      using mm_lt by (simp add: maximal_small_for_medium_value [OF le] assert_that_def s_def A_def)
    have tot: "ZPageSizeSmall e * s + ZPageSizeMedium e * mm = A"
      unfolding s_def using mm_lt by (intro saturate [OF Spos dvd dvdA]) simp
    have "ZPageSizeSmall e * ms \<le> ZPageSizeSmall e * s"
      using feas' tot by linarith
    then have floor_s: "ms \<le> s"
      using Spos by simp
    have "determine_balance_necessity e b
            = Inr (mm \<noteq> available_medium b, b\<lparr>target_medium := mm, target_small := s\<rparr>)"
      using gate os opt' medium s total [OF tot] floor_s
      by (simp add: determine_balance_necessity_def Let_def and_then_def guarantee_def
          maximal_small_target_upd
          A_def [symmetric] ms_def [symmetric] mm_def [symmetric] om_def [symmetric])
    with tot floor_s show ?thesis
      by (auto simp: A_eq ms_def mm_def)
  next
    case small
    define m where "m = (A - ms * ZPageSizeSmall e) div ZPageSizeMedium e"
    have le_ms: "ms * ZPageSizeSmall e \<le> available_page_cache_size e b"
      using ms_lt by (simp add: A_def)
    have m: "calculate_maximal_medium_for_small e b ms = Inr m"
      using ms_lt by (simp add: maximal_medium_for_small_value [OF le_ms] assert_that_def m_def A_def)
    have "mm * ZPageSizeMedium e \<le> A - ms * ZPageSizeSmall e"
      using feas' by (simp add: mult.commute)
    then have floor_m: "mm \<le> m"
      using Mpos by (simp add: m_def less_eq_div_iff_mult_less_eq)
    have "m * ZPageSizeMedium e \<le> A - ms * ZPageSizeSmall e"
      by (simp add: m_def)
    then have m_le: "m * ZPageSizeMedium e + ms * ZPageSizeSmall e \<le> A"
      using ms_lt by simp
    moreover have "0 < ms * ZPageSizeSmall e"
      using ms1 Spos by simp
    ultimately have m_lt: "m * ZPageSizeMedium e < A"
      by linarith
    define s where "s = (A - m * ZPageSizeMedium e) div ZPageSizeSmall e"
    have le_m: "m * ZPageSizeMedium e \<le> available_page_cache_size e b"
      using m_lt by (simp add: A_def)
    have s: "calculate_maximal_small_for_medium e b m = Inr s"
      using m_lt by (simp add: maximal_small_for_medium_value [OF le_m] assert_that_def s_def A_def)
    have tot: "ZPageSizeSmall e * s + ZPageSizeMedium e * m = A"
      unfolding s_def using m_lt by (intro saturate [OF Spos dvd dvdA]) simp
    have "ZPageSizeMedium e * m + ZPageSizeSmall e * ms \<le> A"
      using m_le by (simp add: mult.commute)
    then have "ZPageSizeSmall e * ms \<le> ZPageSizeSmall e * s"
      using tot by linarith
    then have floor_s: "ms \<le> s"
      using Spos by simp
    have "determine_balance_necessity e b
            = Inr (m \<noteq> available_medium b, b\<lparr>target_medium := m, target_small := s\<rparr>)"
      using gate os opt' small m s total [OF tot] floor_s floor_m
      by (simp add: determine_balance_necessity_def Let_def and_then_def guarantee_def
          maximal_small_target_upd
          A_def [symmetric] ms_def [symmetric] mm_def [symmetric] om_def [symmetric])
    with tot floor_s floor_m show ?thesis
      by (auto simp: A_eq ms_def mm_def)
  qed
qed

lemma determine_assert_stops:
  assumes M: "ZPageSizeMedium e = 2 ^ j" and j: "j < 64"
    and gate: "\<not> calculate_total_size e (calculate_minimal_small e b) (calculate_minimal_medium e b)
                  > available_page_cache_size e b"
    and stop: "debug_build e" "\<not> before_relocation b"
      "calculate_optimal_medium e b * ZPageSizeMedium e = available_page_cache_size e b"
  shows "determine_balance_necessity e b = Inl (AssertFailed ''enough page cache'')"
  using gate optimum_assert_stops [OF M j stop]
  by (simp add: determine_balance_necessity_def Let_def and_then_def)

lemma determine_gate_fails:
  assumes "calculate_total_size e (calculate_minimal_small e b) (calculate_minimal_medium e b)
             > available_page_cache_size e b"
  shows "determine_balance_necessity e b = Inr (False, b)"
  using assms by (simp add: determine_balance_necessity_def Let_def)


lemma grow_shrink:
  fixes S M :: nat
  assumes "0 < S" "0 < M" "S * ts + M * tm = S * a + M * c"
  shows "a < ts \<Longrightarrow> tm < c" and "c < tm \<Longrightarrow> ts < a"
    and "\<not> a < ts \<Longrightarrow> \<not> c < tm \<Longrightarrow> ts = a \<and> tm = c"
proof -
  show "tm < c" if "a < ts"
  proof (rule ccontr)
    assume "\<not> tm < c"
    then have "M * c \<le> M * tm" by simp
    moreover have "S * a < S * ts" using that assms(1) by simp
    ultimately show False using assms(3) by linarith
  qed
  show "ts < a" if "c < tm"
  proof (rule ccontr)
    assume "\<not> ts < a"
    then have "S * a \<le> S * ts" by simp
    moreover have "M * c < M * tm" using that assms(2) by simp
    ultimately show False using assms(3) by linarith
  qed
  show "ts = a \<and> tm = c" if "\<not> a < ts" "\<not> c < tm"
  proof -
    have 1: "S * ts \<le> S * a" and 2: "M * tm \<le> M * c"
      using that by simp_all
    from 1 2 assms(3) have "S * ts = S * a" and "M * tm = M * c"
      by linarith+
    then show ?thesis using assms(1,2) by simp
  qed
qed

lemma available_le:
  "available_page_cache_size e b
     \<le> ZPageSizeSmall e * available_small b + ZPageSizeMedium e * available_medium b"
proof -
  have "(ZPageSizeSmall e * available_small b) mod 2 ^ 64 \<le> ZPageSizeSmall e * available_small b"
    and "(ZPageSizeMedium e * available_medium b) mod 2 ^ 64 \<le> ZPageSizeMedium e * available_medium b"
    by simp_all
  moreover have "available_page_cache_size e b
      \<le> (ZPageSizeSmall e * available_small b) mod 2 ^ 64
          + (ZPageSizeMedium e * available_medium b) mod 2 ^ 64"
    by (simp add: available_page_cache_size_def calculate_total_size_def size_t_add_def
        size_t_mul_def)
  ultimately show ?thesis
    by linarith
qed

text \<open>The solver on inputs in range: it returns, or the assertion of the optimum stops it.\<close>

lemma determine_in_range:
  assumes S: "ZPageSizeSmall e = 2 ^ i" and M: "ZPageSizeMedium e = 2 ^ j"
    and ij: "i \<le> j" and j: "j < 64"
    and B: "ZPageSizeSmall e * available_small b + ZPageSizeMedium e * available_medium b < 2 ^ 53"
    and rates: "0 \<le> small_rate e" "0 \<le> medium_rate e"
      "is_double (small_rate e)" "is_double (medium_rate e)"
    and feas: "ZPageSizeSmall e * calculate_minimal_small e b
                 + ZPageSizeMedium e * calculate_minimal_medium e b
               \<le> ZPageSizeSmall e * available_small b + ZPageSizeMedium e * available_medium b"
  shows "(\<exists>ts tm.
            determine_balance_necessity e b
              = Inr (tm \<noteq> available_medium b, b\<lparr>target_medium := tm, target_small := ts\<rparr>)
            \<and> ZPageSizeSmall e * ts + ZPageSizeMedium e * tm
                = ZPageSizeSmall e * available_small b + ZPageSizeMedium e * available_medium b
            \<and> calculate_minimal_small e b \<le> ts \<and> calculate_minimal_medium e b \<le> tm)
       \<or> (debug_build e \<and> \<not> before_relocation b
            \<and> calculate_optimal_medium e b * ZPageSizeMedium e
                = ZPageSizeSmall e * available_small b + ZPageSizeMedium e * available_medium b
            \<and> determine_balance_necessity e b = Inl (AssertFailed ''enough page cache''))"
proof (cases "debug_build e \<and> \<not> before_relocation b
                \<and> calculate_optimal_medium e b * ZPageSizeMedium e
                    = available_page_cache_size e b")
  case True
  have "(2::nat) ^ 53 \<le> 2 ^ 64"
    by simp
  then have small: "ZPageSizeSmall e * available_small b
      + ZPageSizeMedium e * available_medium b < 2 ^ 64"
    and "ZPageSizeSmall e * calculate_minimal_small e b
      + ZPageSizeMedium e * calculate_minimal_medium e b < 2 ^ 64"
    using B feas by linarith+
  then have A: "available_page_cache_size e b
      = ZPageSizeSmall e * available_small b + ZPageSizeMedium e * available_medium b"
    and "calculate_total_size e (calculate_minimal_small e b) (calculate_minimal_medium e b)
      = ZPageSizeSmall e * calculate_minimal_small e b
          + ZPageSizeMedium e * calculate_minimal_medium e b"
    by (simp_all add: available_page_cache_size_def calculate_total_size_small)
  then have "\<not> calculate_total_size e (calculate_minimal_small e b) (calculate_minimal_medium e b)
                  > available_page_cache_size e b"
    using feas by simp
  from determine_assert_stops [OF M j this] True A show ?thesis
    by simp
next
  case False
  have "round_double (medium_rate e) = medium_rate e"
    using rates(4) by (simp add: is_double_def)
  from determine_returns [OF S M ij j B rates(1,2) this feas False] show ?thesis
    by blast
qed

lemma initialize_page_count_fields:
  "available_small (initialize_page_count h b) = small_page_count h"
  "available_medium (initialize_page_count h b) = medium_page_count h"
  "target_small (initialize_page_count h b) = small_page_count h"
  "target_medium (initialize_page_count h b) = medium_page_count h"
  "before_relocation (initialize_page_count h b) = before_relocation b"
  "calculate_minimal_small e (initialize_page_count h b) = calculate_minimal_small e b"
  "calculate_minimal_medium e (initialize_page_count h b) = calculate_minimal_medium e b"
  by (simp_all add: initialize_page_count_def Let_def calculate_minimal_small_def
      calculate_minimal_medium_def)

text \<open>Both cases of the gate, for lower bounds whose byte size does not wrap.\<close>

lemma determine_outcome:
  assumes S: "ZPageSizeSmall e = 2 ^ i" and M: "ZPageSizeMedium e = 2 ^ j"
    and ij: "i \<le> j" and j: "j < 64"
    and B: "ZPageSizeSmall e * available_small b + ZPageSizeMedium e * available_medium b < 2 ^ 53"
    and rates: "0 \<le> small_rate e" "0 \<le> medium_rate e"
      "is_double (small_rate e)" "is_double (medium_rate e)"
    and floors: "ZPageSizeSmall e * calculate_minimal_small e b
                   + ZPageSizeMedium e * calculate_minimal_medium e b < 2 ^ 64"
  shows "(\<not> ZPageSizeSmall e * calculate_minimal_small e b
              + ZPageSizeMedium e * calculate_minimal_medium e b
            \<le> ZPageSizeSmall e * available_small b + ZPageSizeMedium e * available_medium b
          \<and> determine_balance_necessity e b = Inr (False, b))
       \<or> (ZPageSizeSmall e * calculate_minimal_small e b
              + ZPageSizeMedium e * calculate_minimal_medium e b
            \<le> ZPageSizeSmall e * available_small b + ZPageSizeMedium e * available_medium b
          \<and> (\<exists>ts tm.
                determine_balance_necessity e b
                  = Inr (tm \<noteq> available_medium b,
                         b\<lparr>target_medium := tm, target_small := ts\<rparr>)
                \<and> ZPageSizeSmall e * ts + ZPageSizeMedium e * tm
                    = ZPageSizeSmall e * available_small b
                        + ZPageSizeMedium e * available_medium b))
       \<or> (debug_build e \<and> \<not> before_relocation b
            \<and> calculate_optimal_medium e b * ZPageSizeMedium e
                = ZPageSizeSmall e * available_small b + ZPageSizeMedium e * available_medium b
            \<and> determine_balance_necessity e b = Inl (AssertFailed ''enough page cache''))"
proof (cases "ZPageSizeSmall e * calculate_minimal_small e b
                + ZPageSizeMedium e * calculate_minimal_medium e b
              \<le> ZPageSizeSmall e * available_small b + ZPageSizeMedium e * available_medium b")
  case True
  from determine_in_range [OF S M ij j B rates True] True show ?thesis
    by blast
next
  case False
  have "available_page_cache_size e b
      < ZPageSizeSmall e * calculate_minimal_small e b
          + ZPageSizeMedium e * calculate_minimal_medium e b"
    using False available_le [of e b] by linarith
  then have "available_page_cache_size e b
      < calculate_total_size e (calculate_minimal_small e b) (calculate_minimal_medium e b)"
    using floors by (simp add: calculate_total_size_small)
  then have "determine_balance_necessity e b = Inr (False, b)"
    by (rule determine_gate_fails)
  with False show ?thesis
    by blast
qed

subsection \<open>The percentage rule in double arithmetic\<close>

lemma round_to_even_less:
  assumes "y < of_int K - 1 / 2"
  shows "round_to_even y \<le> K - 1"
proof -
  have "\<lfloor>y\<rfloor> \<le> K - 1"
    using assms by linarith
  then consider "\<lfloor>y\<rfloor> \<le> K - 2" | "\<lfloor>y\<rfloor> = K - 1"
    by linarith
  then show ?thesis
  proof cases
    case 1
    then show ?thesis
      using round_to_even_bounds(2) [of y] by linarith
  next
    case 2
    then have "y - of_int \<lfloor>y\<rfloor> < 1 / 2"
      using assms by simp
    then show ?thesis
      using 2 by (simp add: round_to_even_def)
  qed
qed

lemma floor_log2_ge:
  assumes "2 powi k \<le> y"
  shows "k \<le> \<lfloor>log 2 y\<rfloor>"
proof -
  have "(0::real) < 2 powi k"
    by simp
  then have pos: "0 < y"
    using assms by linarith
  have "2 powi k < (2::real) powi (\<lfloor>log 2 y\<rfloor> + 1)"
    using assms floor_log2_bounds(2) [OF pos] by linarith
  then have "k < \<lfloor>log 2 y\<rfloor> + 1"
    using power_int_increasing [of "\<lfloor>log 2 y\<rfloor> + 1" k "2::real"]
    by (cases "k < \<lfloor>log 2 y\<rfloor> + 1") simp_all
  then show ?thesis
    by simp
qed

lemma floor_log2_less:
  assumes "0 < y" "y < 2 powi k"
  shows "\<lfloor>log 2 y\<rfloor> < k"
proof -
  have "2 powi \<lfloor>log 2 y\<rfloor> < (2::real) powi k"
    using assms floor_log2_bounds(1) [OF assms(1)] by linarith
  then show ?thesis
    using power_int_increasing [of k "\<lfloor>log 2 y\<rfloor>" "2::real"]
    by (cases "\<lfloor>log 2 y\<rfloor> < k") simp_all
qed

lemma mantissa_le:
  assumes "0 < x"
  shows "round_to_even (x / 2 powi ulp_exponent x) \<le> 2 ^ 53"
proof -
  define u where "u = ulp_exponent x"
  have "\<lfloor>log 2 x\<rfloor> + 1 \<le> u + 53"
    using assms by (simp add: u_def ulp_exponent_def)
  then have "(2::real) powi (\<lfloor>log 2 x\<rfloor> + 1) \<le> 2 powi (u + 53)"
    by (intro power_int_increasing) simp_all
  then have "x \<le> 2 powi (u + 53)"
    using floor_log2_bounds(2) [OF assms] by linarith
  then have "x / 2 powi u \<le> 2 powi (u + 53) / 2 powi u"
    by (simp add: divide_right_mono)
  also have "\<dots> = of_int (2 ^ 53)"
    by (simp add: power_int_add)
  finally have "round_to_even (x / 2 powi u) \<le> round_to_even (of_int (2 ^ 53))"
    by (rule round_to_even_mono)
  then show ?thesis
    by (simp only: round_to_even_of_int u_def)
qed

lemma round_double_idem:
  assumes "0 \<le> x"
  shows "round_double (round_double x) = round_double x"
proof (cases "x = 0")
  case True
  then show ?thesis by simp
next
  case False
  then have pos: "0 < x"
    using assms by simp
  define u where "u = ulp_exponent x"
  define R where "R = round_to_even (x / 2 powi u)"
  have rd: "round_double x = 2 powi u * of_int R"
    using pos by (simp add: round_double_def u_def R_def)
  have u: "- 1074 \<le> u"
    by (simp add: u_def ulp_exponent_def)
  have "0 \<le> round_double x"
    using assms by (rule round_double_nonneg)
  moreover have "(0::real) < 2 powi u"
    by simp
  ultimately have "0 \<le> (of_int R :: real)"
    unfolding rd by (metis mult_le_cancel_left_pos mult_zero_right)
  then have R0: "0 \<le> R"
    by simp
  have R53: "R \<le> 2 ^ 53"
    using mantissa_le [OF pos] by (simp add: R_def u_def)
  consider "R = 0" | "0 < R" "R < 2 ^ 53" | "R = 2 ^ 53"
    using R0 R53 by linarith
  then show ?thesis
  proof cases
    case 1
    then show ?thesis
      by (simp add: rd)
  next
    case 2
    from round_double_exact [OF 2 u] show ?thesis
      by (simp add: rd mult.commute)
  next
    case 3
    have "round_double x = of_int 1 * 2 powi (u + 53)"
      by (simp add: rd 3 power_int_add)
    moreover have "round_double (of_int 1 * 2 powi (u + 53)) = of_int 1 * 2 powi (u + 53)"
      using u by (intro round_double_exact) simp_all
    ultimately show ?thesis
      by simp
  qed
qed

lemma round_double_scale:
  assumes "0 < y" "- 1022 \<le> \<lfloor>log 2 y\<rfloor> - int i"
  shows "round_double (y / 2 ^ i) = round_double y / 2 ^ i"
proof -
  have pos: "0 < y / 2 ^ i"
    using assms(1) by simp
  have "log 2 (y / 2 ^ i) = log 2 y - real i"
    using assms(1) by (simp add: log_divide log_nat_power)
  then have "\<lfloor>log 2 (y / 2 ^ i)\<rfloor> = \<lfloor>log 2 y\<rfloor> - int i"
    by (metis floor_diff_of_int of_int_of_nat_eq)
  then have u: "ulp_exponent (y / 2 ^ i) = ulp_exponent y - int i"
    using assms pos by (simp add: ulp_exponent_def)
  have q: "(2::real) powi (ulp_exponent y - int i) = 2 powi ulp_exponent y / 2 ^ i"
    by (simp add: power_int_diff)
  have "y / 2 ^ i / (2 powi ulp_exponent y / 2 ^ i) = y / 2 powi ulp_exponent y"
    by simp
  then show ?thesis
    using assms(1) pos by (simp add: round_double_def u q)
qed

lemma round_double_keeps_floor:
  assumes "real n \<le> t" "t \<le> real n + 99 / 100" "t < 2 ^ 47"
  shows "real n \<le> round_double t" and "round_double t < real n + 1"
proof -
  have n53: "n < 2 ^ 53"
  proof -
    have "real n < 2 ^ 47"
      using assms(1,3) by linarith
    then have "n < 2 ^ 47"
      by (metis of_nat_less_iff of_nat_numeral of_nat_power)
    moreover have "(2::nat) ^ 47 \<le> 2 ^ 53"
      by simp
    ultimately show ?thesis
      by linarith
  qed
  have "round_double (real n) \<le> round_double t"
    using assms(1) by (intro round_double_mono) simp_all
  then show "real n \<le> round_double t"
    using n53 by (simp add: round_double_nat)
  show "round_double t < real n + 1"
  proof (cases "t = 0")
    case True
    then show ?thesis by simp
  next
    case False
    moreover have "0 \<le> real n"
      by simp
    ultimately have pos: "0 < t"
      using assms(1) by linarith
    define u where "u = ulp_exponent t"
    have "t < 2 powi 47"
      using assms(3) by simp
    from floor_log2_less [OF pos this]
    have "\<lfloor>log 2 \<bar>t\<bar>\<rfloor> < 47"
      using pos by (simp only: abs_of_pos)
    then have u_le: "u \<le> - 6"
      unfolding u_def ulp_exponent_def by linarith
    have u_ge: "- 1074 \<le> u"
      by (simp add: u_def ulp_exponent_def)
    define K where "K = (int n + 1) * 2 ^ nat (- u)"
    have q: "(2::real) powi u = 1 / 2 ^ nat (- u)"
      using u_le by (simp add: power_int_def inverse_eq_divide power_one_over)
    have K: "of_int K = (real n + 1) / 2 powi u"
      by (simp add: K_def q)
    have "(2::real) ^ 6 \<le> 2 ^ nat (- u)"
      using u_le by (intro power_increasing) simp_all
    then have "1 / 2 < (1 / 100) * (2::real) ^ nat (- u)"
      by simp
    then have "1 / 2 < (1 / 100) / (2::real) powi u"
      by (simp add: q)
    moreover have "t / 2 powi u \<le> (real n + 99 / 100) / 2 powi u"
      using assms(2) by (simp add: divide_right_mono)
    moreover have "(real n + 99 / 100) / 2 powi u
        = (real n + 1) / 2 powi u - (1 / 100) / 2 powi u"
      by (simp add: field_simps)
    ultimately have "t / 2 powi u < of_int K - 1 / 2"
      unfolding K by linarith
    then have "round_to_even (t / 2 powi u) \<le> K - 1"
      by (rule round_to_even_less)
    then have "of_int (round_to_even (t / 2 powi u)) \<le> (of_int K :: real) - 1"
      by (metis of_int_1 of_int_diff of_int_le_iff)
    then have "(2::real) powi u * of_int (round_to_even (t / 2 powi u)) \<le> 2 powi u * (of_int K - 1)"
      by (intro mult_left_mono) simp_all
    also have "\<dots> = real n + 1 - 2 powi u"
      unfolding K by (simp add: field_simps)
    also have "\<dots> < real n + 1"
      by simp
    finally show ?thesis
      using pos by (simp add: round_double_def u_def)
  qed
qed

lemma percent_floor:
  assumes x: "x < 2 ^ 53" and i: "i < 64"
  shows "size_t_of_double (double_div (double_div (double_of_size_t x) 100)
           (double_of_size_t (2 ^ i))) = x div (100 * 2 ^ i)"
proof -
  define n where "n = x div 100"
  define t where "t = real x / 100"
  define y where "y = round_double t"
  define z where "z = round_double (y / 2 ^ i)"
  have xd: "double_of_size_t x = real x"
    using x by (simp add: double_of_size_t_def round_double_nat)
  have Sd: "double_of_size_t (2 ^ i) = 2 ^ i"
    by (simp add: double_of_size_t_def round_double_pow2)
  have lhs: "double_div (double_div (double_of_size_t x) 100) (double_of_size_t (2 ^ i)) = z"
    by (simp add: xd Sd double_div_def z_def y_def t_def)
  have "x = 100 * n + x mod 100"
    by (simp add: n_def)
  moreover have "x mod 100 \<le> 99"
    by (simp add: less_Suc_eq_le [symmetric])
  ultimately have "100 * n \<le> x" "x \<le> 100 * n + 99"
    by linarith+
  then have "real (100 * n) \<le> real x" "real x \<le> real (100 * n + 99)"
    by (simp_all only: of_nat_le_iff)
  then have t1: "real n \<le> t" and t2: "t \<le> real n + 99 / 100"
    by (simp_all add: t_def)
  have "real x < 2 ^ 53"
    using x by (metis of_nat_less_iff of_nat_numeral of_nat_power)
  then have t3: "t < 2 ^ 47"
    by (simp add: t_def)
  from round_double_keeps_floor [OF t1 t2 t3]
  have y1: "real n \<le> y" and y2: "y < real n + 1"
    by (simp_all add: y_def)
  then have fl: "\<lfloor>y\<rfloor> = int n"
    by linarith
  have t0: "0 \<le> t"
    by (simp add: t_def)
  have zy: "z = y / 2 ^ i"
  proof (cases "x = 0")
    case True
    then show ?thesis
      by (simp add: z_def y_def t_def)
  next
    case False
    then have "1 \<le> real x"
      by simp
    then have "2 powi (- 7) \<le> t"
      by (simp add: t_def power_int_minus)
    then have "round_double (of_int 1 * 2 powi (- 7)) \<le> round_double t"
      by (intro round_double_mono) simp_all
    moreover have "round_double (of_int 1 * 2 powi (- 7)) = of_int 1 * 2 powi (- 7)"
      by (intro round_double_exact) simp_all
    ultimately have y7: "2 powi (- 7) \<le> y"
      by (simp add: y_def)
    have "(0::real) < 2 powi (- 7)"
      by simp
    then have ypos: "0 < y"
      using y7 by linarith
    have "- 7 \<le> \<lfloor>log 2 y\<rfloor>"
      using y7 by (rule floor_log2_ge)
    then have "- 1022 \<le> \<lfloor>log 2 y\<rfloor> - int i"
      using i by linarith
    from round_double_scale [OF ypos this] round_double_idem [OF t0] show ?thesis
      by (simp add: z_def y_def)
  qed
  have "\<lfloor>z\<rfloor> = \<lfloor>y / real_of_int (2 ^ i)\<rfloor>"
    by (simp add: zy)
  also have "\<dots> = \<lfloor>y\<rfloor> div 2 ^ i"
    by (rule floor_divide_real_eq_div) simp
  also have "\<dots> = int (n div 2 ^ i)"
    by (simp add: fl zdiv_int)
  finally have "nat \<lfloor>z\<rfloor> = n div 2 ^ i"
    by simp
  also have "\<dots> = x div (100 * 2 ^ i)"
    by (simp add: n_def div_mult2_eq)
  finally have nz: "nat \<lfloor>z\<rfloor> = x div (100 * 2 ^ i)" .
  have "x div (100 * 2 ^ i) \<le> x"
    by simp
  moreover have "(2::nat) ^ 53 \<le> 2 ^ 64"
    by simp
  ultimately have "nat \<lfloor>z\<rfloor> < 2 ^ 64"
    using x nz by linarith
  then show ?thesis
    by (simp add: lhs size_t_of_double_def nz)
qed

lemma calculate_minimal_small_div:
  assumes "heap_capacity e * ZMinPageCachePercent e < 2 ^ 53"
    and "ZPageSizeSmall e = 2 ^ i" and "i < 64"
  shows "calculate_minimal_small e b =
     (let result = max ((heap_capacity e * ZMinPageCachePercent e) div (100 * ZPageSizeSmall e)) 1
      in if before_relocation b then max (small_selected_to b) result else result)"
proof -
  have "(2::nat) ^ 53 \<le> 2 ^ 64"
    by simp
  then have "heap_capacity e * ZMinPageCachePercent e < 2 ^ 64"
    using assms(1) by linarith
  then have "size_t_mul (heap_capacity e) (ZMinPageCachePercent e)
      = heap_capacity e * ZMinPageCachePercent e"
    by (rule size_t_mul_small)
  then show ?thesis
    using percent_floor [OF assms(1,3)]
    by (simp add: calculate_minimal_small_def MAX2_max Let_def assms(2))
qed

lemma calculate_minimal_medium_div:
  assumes "heap_capacity e * ZMinPageCachePercent e < 2 ^ 53"
    and "ZPageSizeMedium e = 2 ^ j" and "j < 64"
  shows "calculate_minimal_medium e b =
     (let result = max ((heap_capacity e * ZMinPageCachePercent e) div (100 * ZPageSizeMedium e)) 1
      in if before_relocation b then max (medium_selected_to b) result else result)"
proof -
  have "(2::nat) ^ 53 \<le> 2 ^ 64"
    by simp
  then have "heap_capacity e * ZMinPageCachePercent e < 2 ^ 64"
    using assms(1) by linarith
  then have "size_t_mul (heap_capacity e) (ZMinPageCachePercent e)
      = heap_capacity e * ZMinPageCachePercent e"
    by (rule size_t_mul_small)
  then show ?thesis
    using percent_floor [OF assms(1,3)]
    by (simp add: calculate_minimal_medium_def MAX2_max Let_def assms(2))
qed

lemma round_double_numeral:
  "numeral k < (2::nat) ^ 53 \<Longrightarrow> round_double (numeral k) = numeral k"
  using round_double_nat [of "numeral k"] by simp

lemma round_double_1 [simp]: "round_double 1 = 1"
  using round_double_nat [of 1] by simp

lemma is_double_numeral:
  assumes "numeral k < (2::nat) ^ 53"
  shows "is_double (numeral k)"
proof -
  have a: "(numeral k :: real) < 2 ^ 53"
    using assms by (metis of_nat_less_iff of_nat_numeral of_nat_power)
  have b: "(2::real) ^ 53 \<le> 2 ^ 1000"
    by (intro power_increasing) simp_all
  have c: "\<bar>numeral k :: real\<bar> = numeral k"
    by simp
  have "\<bar>numeral k :: real\<bar> \<le> 2 ^ 1000"
    unfolding c using a b by (rule less_imp_le [OF less_le_trans])
  moreover have "round_double (numeral k) = numeral k"
    using assms by (rule round_double_numeral)
  ultimately show ?thesis
    unfolding is_double_def by (intro conjI)
qed

lemma is_double_0 [simp]: "is_double 0"
  by (simp add: is_double_def)

text \<open>The optimum of the example: rates of 1 MiB/s and 200 MiB/s on 8640 small pages.\<close>

lemma optimal_medium_200_to_1:
  assumes "ZPageSizeSmall e = 2097152" and "ZPageSizeMedium e = 33554432"
    and "\<not> before_relocation b"
    and "available_small b = 8640" and "available_medium b = 0"
    and "small_rate e = 209715200" and "medium_rate e = 1048576"
  shows "available_page_cache_size e b = 18119393280"
    and "calculate_optimal_medium e b = 2"
proof -
  show A: "available_page_cache_size e b = 18119393280"
    using assms
    by (simp add: available_page_cache_size_def calculate_total_size_def size_t_add_def
        size_t_mul_def)
  define s where "s = double_add (medium_rate e) (small_rate e)"
  define d where "d = double_add s (round_double (1 / 10))"
  define r where "r = double_div (medium_rate e) d"
  define y where "y = double_mul (double_of_size_t (available_page_cache_size e b)) r"
  define z where "z = double_div y (double_of_size_t (ZPageSizeMedium e))"
  have s: "s = 210763776"
    by (simp add: s_def double_add_def assms round_double_numeral)
  have d: "d = 7072058793210675 / 33554432"
    unfolding d_def s double_0_1 double_add_def
    by (subst round_double_eval [where e = 27])
      (simp_all add: round_to_even_def power_int_minus)
  have r: "r = 2867963940447329 / 576460752303423488"
    unfolding r_def d double_div_def assms
    by (subst round_double_eval [where e = "- 8"])
      (simp_all add: round_to_even_def power_int_minus)
  have Ad: "double_of_size_t (available_page_cache_size e b) = 18119393280"
    by (simp add: A double_of_size_t_def round_double_numeral)
  have y: "y = 6049611436881085 / 67108864"
    unfolding y_def Ad r double_mul_def
    by (subst round_double_eval [where e = 26])
      (simp_all add: round_to_even_def power_int_minus)
  have Md: "double_of_size_t (ZPageSizeMedium e) = 33554432"
    by (simp add: assms double_of_size_t_def round_double_numeral)
  have z: "z = 6049611436881085 / 2251799813685248"
    unfolding z_def y Md double_div_def
    by (subst round_double_eval [where e = 1])
      (simp_all add: round_to_even_def power_int_minus)
  have "calculate_optimal_medium e b = size_t_of_double z"
    using assms(3) by (simp add: calculate_optimal_medium_def z_def y_def r_def d_def s_def)
  also have "\<dots> = 2"
    by (simp add: z size_t_of_double_def)
  finally show "calculate_optimal_medium e b = 2" .
qed

lemma solver_200_to_1:
  assumes "ZPageSizeSmall e = 2097152" and "ZPageSizeMedium e = 33554432"
    and "\<not> before_relocation b"
    and "available_small b = 8640" and "available_medium b = 0"
    and "calculate_minimal_small e b = 800" and "calculate_minimal_medium e b = 50"
    and "small_rate e = 209715200" and "medium_rate e = 1048576"
  shows "determine_balance_necessity e b
           = Inr (True, b\<lparr>target_medium := 50, target_small := 7840\<rparr>)"
proof -
  note opt = optimal_medium_200_to_1 [OF assms(1-5,8,9)]
  note A = opt(1) and om = opt(2)
  have mul: "size_t_mul 2 33554432 = 67108864" "size_t_mul 50 33554432 = 1677721600"
    by (simp_all add: size_t_mul_def)
  have sub: "size_t_sub 18119393280 67108864 = 18052284416"
    "size_t_sub 18119393280 1677721600 = 16441671680"
    by (simp_all add: size_t_sub_def)
  have os: "calculate_optimal_small e b = Inr 8608"
    using assms(1,2,3) A om
    by (simp add: calculate_optimal_small_def calculate_maximal_small_for_medium_def
        assert_that_def mul sub)
  have s: "calculate_maximal_small_for_medium e (b\<lparr>target_medium := 50\<rparr>) 50 = Inr 7840"
    using assms(1,2) A
    by (simp add: calculate_maximal_small_for_medium_def assert_that_def mul sub)
  have tot: "calculate_total_size e 800 50 = 3355443200"
    "calculate_total_size e 8608 2 = 18119393280"
    "calculate_total_size e 7840 50 = 18119393280"
    using assms(1,2) by (simp_all add: calculate_total_size_def size_t_add_def size_t_mul_def)
  show ?thesis
    using assms A om os s tot
    by (simp add: determine_balance_necessity_def Let_def and_then_def guarantee_def)
qed

lemma example_sizes:
  "ZPageSizeSmall example_env = 2097152" "ZPageSizeMedium example_env = 33554432"
  "small_rate example_env = 209715200" "medium_rate example_env = 1048576"
  "heap_capacity example_env = 16777216000" "ZMinPageCachePercent example_env = 10"
  by (simp_all add: example_env_def)

lemma example_counts:
  "available_small example_balancer = 8640" "available_medium example_balancer = 0"
  "before_relocation example_balancer = False"
  by (simp_all add: example_balancer_def)

lemma example_minimal_small: "calculate_minimal_small example_env example_balancer = 800"
  using calculate_minimal_small_div [of example_env 21 example_balancer]
  by (simp add: example_sizes example_counts)

lemma example_minimal_medium: "calculate_minimal_medium example_env example_balancer = 50"
  using calculate_minimal_medium_div [of example_env 25 example_balancer]
  by (simp add: example_sizes example_counts)

lemma example_rates:
  "0 \<le> small_rate example_env" "0 \<le> medium_rate example_env"
  "is_double (small_rate example_env)" "is_double (medium_rate example_env)"
  by (simp_all add: example_sizes is_double_numeral)

lemma example_determine:
  "determine_balance_necessity example_env example_balancer
     = Inr (True, example_balancer\<lparr>target_medium := 50, target_small := 7840\<rparr>)"
  by (rule solver_200_to_1)
    (simp_all add: example_sizes example_counts example_minimal_small example_minimal_medium)

lemma example_initialize:
  "initialize_page_count example_heap example_balancer = example_balancer"
  by (simp add: initialize_page_count_def Let_def small_page_count_def medium_page_count_def
      example_heap_def example_balancer_def)

subsection \<open>The wrapped lower bound\<close>




subsection \<open>The ratio that rounds to one\<close>





subsection \<open>An optimum below the exact quotient\<close>

lemma uneven_fields:
  "ZPageSizeSmall uneven_rate_env = 2097152" "ZPageSizeMedium uneven_rate_env = 33554432"
  "small_rate uneven_rate_env = 15" "medium_rate uneven_rate_env = 1"
  "before_relocation medium_only_balancer = False"
  "available_small medium_only_balancer = 0" "available_medium medium_only_balancer = 161"
  by (simp_all add: uneven_rate_env_def medium_only_balancer_def example_env_def
      example_balancer_def)

lemma uneven_available:
  "available_page_cache_size uneven_rate_env medium_only_balancer = 5402263552"
  by (simp add: available_page_cache_size_def calculate_total_size_def size_t_add_def
      size_t_mul_def uneven_fields)

lemma uneven_optimal_medium:
  "calculate_optimal_medium uneven_rate_env medium_only_balancer = 9"
proof -
  define s where "s = double_add (medium_rate uneven_rate_env) (small_rate uneven_rate_env)"
  define d where "d = double_add s (round_double (1 / 10))"
  define r where "r = double_div (medium_rate uneven_rate_env) d"
  define y where "y = double_mul
    (double_of_size_t (available_page_cache_size uneven_rate_env medium_only_balancer)) r"
  define z where "z = double_div y (double_of_size_t (ZPageSizeMedium uneven_rate_env))"
  have s: "s = 16"
    by (simp add: s_def double_add_def uneven_fields round_double_numeral)
  have d: "d = 2265873562520781 / 140737488355328"
    unfolding d_def s double_0_1 double_add_def
    by (subst round_double_eval [where e = 4])
      (simp_all add: round_to_even_def power_int_minus)
  have r: "r = 4475626958877511 / 72057594037927936"
    unfolding r_def d double_div_def uneven_fields
    by (subst round_double_eval [where e = "- 5"])
      (simp_all add: round_to_even_def power_int_minus)
  have Ad: "double_of_size_t (available_page_cache_size uneven_rate_env medium_only_balancer)
      = 5402263552"
    by (simp add: uneven_available double_of_size_t_def round_double_numeral)
  have y: "y = 5629499534213119 / 16777216"
    unfolding y_def Ad r double_mul_def
    by (subst round_double_eval [where e = 28])
      (simp_all add: round_to_even_def power_int_minus)
  have Md: "double_of_size_t (ZPageSizeMedium uneven_rate_env) = 33554432"
    by (simp add: uneven_fields double_of_size_t_def round_double_numeral)
  have z: "z = 5629499534213119 / 562949953421312"
    unfolding z_def y Md double_div_def
    by (subst round_double_eval [where e = 3])
      (simp_all add: round_to_even_def power_int_minus)
  have "calculate_optimal_medium uneven_rate_env medium_only_balancer = size_t_of_double z"
    by (simp add: calculate_optimal_medium_def z_def y_def r_def d_def s_def uneven_fields)
  also have "\<dots> = 9"
    by (simp add: z size_t_of_double_def)
  finally show ?thesis .
qed

subsection \<open>A lower bound above the exact quotient\<close>



section \<open>Properties of the sizing solver\<close>

text \<open>
  C1 (capacity preservation). Suppose the page sizes are powers of two with \<open>SmallSize \<le> MediumSize < 2 ^ 64\<close>, the cache
  holds fewer than \<open>2 ^ 53\<close> bytes, and the allocation rates are non-negative doubles of at
  most \<open>2 ^ 1000\<close>, and the lower bounds fit:
  \<open>SmallSize * min_s + MediumSize * min_m \<le> SmallSize * as + MediumSize * am\<close>. Then the
  targets computed by \<^verbatim>\<open>determine_balance_necessity\<close> satisfy
  \<open>SmallSize * ts + MediumSize * tm = SmallSize * as + MediumSize * am\<close>, in each of the three
  cases of the projection. In a debug build the assertion \<^verbatim>\<open>enough page cache\<close> of
  \<^verbatim>\<open>calculate_optimal_small\<close> can stop the solver before any target is computed, and only
  when \<open>MediumSize * optimal_medium\<close> is the whole cache (see C9); a product build always
  returns.
\<close>

theorem capacity_preservation:
  assumes "ZPageSizeSmall e = 2 ^ i" and "ZPageSizeMedium e = 2 ^ j" and "i \<le> j" and "j < 64"
    and "ZPageSizeSmall e * available_small b + ZPageSizeMedium e * available_medium b < 2 ^ 53"
    and "0 \<le> small_rate e" and "0 \<le> medium_rate e"
    and "is_double (small_rate e)" and "is_double (medium_rate e)"
    and "ZPageSizeSmall e * calculate_minimal_small e b
           + ZPageSizeMedium e * calculate_minimal_medium e b
         \<le> ZPageSizeSmall e * available_small b + ZPageSizeMedium e * available_medium b"
  shows "(\<exists>necessary b'.
            determine_balance_necessity e b = Inr (necessary, b')
            \<and> ZPageSizeSmall e * target_small b' + ZPageSizeMedium e * target_medium b'
                = ZPageSizeSmall e * available_small b + ZPageSizeMedium e * available_medium b)
       \<or> (debug_build e \<and> \<not> before_relocation b
            \<and> calculate_optimal_medium e b * ZPageSizeMedium e
                = ZPageSizeSmall e * available_small b + ZPageSizeMedium e * available_medium b
            \<and> determine_balance_necessity e b = Inl (AssertFailed ''enough page cache''))"
  using determine_in_range [OF assms] by auto

theorem capacity_preservation_witness:
  "\<exists>necessary b'.
     determine_balance_necessity example_env example_balancer = Inr (necessary, b')
     \<and> 2097152 * target_small b' + 33554432 * target_medium b' = 18119393280"
  using capacity_preservation [of example_env 21 25 example_balancer]
  by (simp add: example_sizes example_counts is_double_numeral example_minimal_small
      example_minimal_medium example_determine)

text \<open>
  C2 (reservation floor). Under the conditions of C1 the computed targets are not below the
  lower bounds: \<open>target_small \<ge> minimal_small\<close> and \<open>target_medium \<ge> minimal_medium\<close>; the
  result is never a failed \<^verbatim>\<open>guarantee\<close>. In a debug build the assertion \<^verbatim>\<open>enough page cache\<close> of
  \<^verbatim>\<open>calculate_optimal_small\<close> can stop the solver before any target is computed, and only
  when \<open>MediumSize * optimal_medium\<close> is the whole cache (see C9); a product build always
  returns.
\<close>

theorem reservation_floor:
  assumes "ZPageSizeSmall e = 2 ^ i" and "ZPageSizeMedium e = 2 ^ j" and "i \<le> j" and "j < 64"
    and "ZPageSizeSmall e * available_small b + ZPageSizeMedium e * available_medium b < 2 ^ 53"
    and "0 \<le> small_rate e" and "0 \<le> medium_rate e"
    and "is_double (small_rate e)" and "is_double (medium_rate e)"
    and "ZPageSizeSmall e * calculate_minimal_small e b
           + ZPageSizeMedium e * calculate_minimal_medium e b
         \<le> ZPageSizeSmall e * available_small b + ZPageSizeMedium e * available_medium b"
  shows "(\<exists>necessary b'.
            determine_balance_necessity e b = Inr (necessary, b')
            \<and> target_small b' \<ge> calculate_minimal_small e b
            \<and> target_medium b' \<ge> calculate_minimal_medium e b)
       \<or> (debug_build e \<and> \<not> before_relocation b
            \<and> calculate_optimal_medium e b * ZPageSizeMedium e
                = ZPageSizeSmall e * available_small b + ZPageSizeMedium e * available_medium b
            \<and> determine_balance_necessity e b = Inl (AssertFailed ''enough page cache''))"
  using determine_in_range [OF assms] by auto

theorem reservation_floor_witness:
  "\<exists>necessary b'.
     determine_balance_necessity example_env example_balancer = Inr (necessary, b')
     \<and> target_small b' \<ge> 800 \<and> target_medium b' \<ge> 50"
  using reservation_floor [of example_env 21 25 example_balancer]
  by (simp add: example_sizes example_counts is_double_numeral example_minimal_small
      example_minimal_medium example_determine)







text \<open>
  C5 (optimum after relocation), as amended. Suppose \<open>before_relocation\<close> is not set and
  the page sizes are powers of two with \<open>SmallSize \<le> MediumSize < 2 ^ 64\<close>, the cache
  holds fewer than \<open>2 ^ 53\<close> bytes, and the allocation rates are non-negative doubles of at
  most \<open>2 ^ 1000\<close>. Then \<open>optimal_medium\<close> is the truncation of
  \<open>available_total * ratio / MediumSize\<close> with
  \<open>ratio = medium_rate / (medium_rate + small_rate + 0.1)\<close>, every operation rounded to
  double precision; \<open>MediumSize * optimal_medium \<le> available_total\<close>; and whenever the
  assertion of \<^verbatim>\<open>calculate_optimal_small\<close> does not stop the VM (a product build, or
  \<open>MediumSize * optimal_medium < available_total\<close>),
  \<open>optimal_small = \<lfloor>(available_total - MediumSize * optimal_medium) / SmallSize\<rfloor>\<close> and the
  pair has exactly the byte size \<open>available_total\<close>, which is what the \<^verbatim>\<open>guarantee\<close>
  after the optimum checks.
\<close>

theorem after_relocation_optimum:
  assumes "\<not> before_relocation b"
    and "ZPageSizeSmall e = 2 ^ i" and "ZPageSizeMedium e = 2 ^ j" and "i \<le> j" and "j < 64"
    and "ZPageSizeSmall e * available_small b + ZPageSizeMedium e * available_medium b < 2 ^ 53"
    and "0 \<le> small_rate e" and "0 \<le> medium_rate e"
    and "is_double (small_rate e)" and "is_double (medium_rate e)"
  shows "calculate_optimal_medium e b
           = size_t_of_double
               (double_div
                  (double_mul (double_of_size_t (available_page_cache_size e b))
                     (double_div (medium_rate e)
                        (double_add (double_add (medium_rate e) (small_rate e))
                           (round_double (1 / 10)))))
                  (double_of_size_t (ZPageSizeMedium e)))
       \<and> ZPageSizeMedium e * calculate_optimal_medium e b
           \<le> ZPageSizeSmall e * available_small b + ZPageSizeMedium e * available_medium b
       \<and> (\<not> debug_build e
           \<or> ZPageSizeMedium e * calculate_optimal_medium e b
               < ZPageSizeSmall e * available_small b + ZPageSizeMedium e * available_medium b
           \<longrightarrow> calculate_optimal_small e b
                 = Inr ((ZPageSizeSmall e * available_small b
                           + ZPageSizeMedium e * available_medium b
                           - ZPageSizeMedium e * calculate_optimal_medium e b)
                        div ZPageSizeSmall e)
               \<and> ZPageSizeSmall e
                   * ((ZPageSizeSmall e * available_small b
                         + ZPageSizeMedium e * available_medium b
                         - ZPageSizeMedium e * calculate_optimal_medium e b)
                      div ZPageSizeSmall e)
                   + ZPageSizeMedium e * calculate_optimal_medium e b
                 = ZPageSizeSmall e * available_small b
                     + ZPageSizeMedium e * available_medium b)"
proof -
  define A where "A = ZPageSizeSmall e * available_small b + ZPageSizeMedium e * available_medium b"
  define om where "om = calculate_optimal_medium e b"
  have "(2::nat) ^ 53 \<le> 2 ^ 64"
    by simp
  then have "A < 2 ^ 64"
    using assms(6) unfolding A_def by linarith
  then have A: "available_page_cache_size e b = A"
    by (simp add: A_def available_page_cache_size_def calculate_total_size_small)
  have A53: "available_page_cache_size e b < 2 ^ 53"
    using assms(6) A by (simp add: A_def)
  have md: "round_double (medium_rate e) = medium_rate e"
    using assms(10) by (simp add: is_double_def)
  from optimal_medium_le [OF assms(1,3,5) A53 assms(7,8) md]
  have "om \<le> A div ZPageSizeMedium e"
    by (simp add: om_def A)
  then have le: "om * ZPageSizeMedium e \<le> A"
    by (simp add: less_eq_div_iff_mult_less_eq assms(3))
  have Spos: "0 < ZPageSizeSmall e" and dvd: "ZPageSizeSmall e dvd ZPageSizeMedium e"
    using assms(4) by (simp_all add: assms(2,3) pow2_dvd)
  have dvdA: "ZPageSizeSmall e dvd A"
    unfolding A_def using dvd by simp
  have sat: "ZPageSizeSmall e * ((A - om * ZPageSizeMedium e) div ZPageSizeSmall e)
               + ZPageSizeMedium e * om = A"
    using saturate [OF Spos dvd dvdA le] .
  have le': "om * ZPageSizeMedium e \<le> available_page_cache_size e b"
    using le A by simp
  have small: "calculate_optimal_small e b
      = Inr ((A - om * ZPageSizeMedium e) div ZPageSizeSmall e)"
    if "\<not> debug_build e \<or> om * ZPageSizeMedium e < A"
    using that assms(1) maximal_small_for_medium_value [OF le' [unfolded om_def]]
    by (auto simp: calculate_optimal_small_def assert_that_def A om_def)
  have formula: "calculate_optimal_medium e b
           = size_t_of_double
               (double_div
                  (double_mul (double_of_size_t (available_page_cache_size e b))
                     (double_div (medium_rate e)
                        (double_add (double_add (medium_rate e) (small_rate e))
                           (round_double (1 / 10)))))
                  (double_of_size_t (ZPageSizeMedium e)))"
    using assms(1) by (simp add: calculate_optimal_medium_def)
  show ?thesis
    using formula le small sat
    unfolding A_def [symmetric] om_def [symmetric]
    by (simp add: mult.commute)
qed

theorem after_relocation_optimum_witness:
  "calculate_optimal_medium example_env example_balancer = 2
   \<and> 33554432 * calculate_optimal_medium example_env example_balancer \<le> 18119393280
   \<and> calculate_optimal_small example_env example_balancer = Inr 8608
   \<and> 2097152 * 8608 + 33554432 * calculate_optimal_medium example_env example_balancer
       = 18119393280"
proof -
  have om: "calculate_optimal_medium example_env example_balancer = 2"
    by (rule optimal_medium_200_to_1(2)) (simp_all add: example_sizes example_counts)
  show ?thesis
    using after_relocation_optimum [of example_balancer example_env 21 25]
    by (simp add: example_sizes example_counts is_double_numeral om)
qed

text \<open>
  The exact quotient of the claim is not what the code computes: with 161 medium pages cached
  and rates of 1 byte/s (medium) and 15 bytes/s (small), \<open>available_total * ratio / MediumSize\<close>
  is exactly 10, and the code, in double arithmetic, arrives at 9.
\<close>

theorem optimum_counterexample:
  "calculate_optimal_medium uneven_rate_env medium_only_balancer = 9
   \<and> nat \<lfloor>real (available_page_cache_size uneven_rate_env medium_only_balancer)
            * (medium_rate uneven_rate_env
                 / (medium_rate uneven_rate_env + small_rate uneven_rate_env + 1 / 10))
            / real (ZPageSizeMedium uneven_rate_env)\<rfloor> = 10"
  by (simp add: uneven_optimal_medium uneven_available uneven_fields)

text \<open>
  C6 (exactly one class grows). Suppose the page sizes are powers of two with \<open>SmallSize \<le> MediumSize < 2 ^ 64\<close>, the cache
  holds fewer than \<open>2 ^ 53\<close> bytes, and the allocation rates are non-negative doubles of at
  most \<open>2 ^ 1000\<close>, and the byte size of the lower
  bounds does not wrap. For every outcome of the solver after \<^verbatim>\<open>initialize_page_count\<close>,
  exactly one of \<open>target_small > available_small\<close>, \<open>target_medium > available_medium\<close>,
  \<open>(target_small, target_medium) = (available_small, available_medium)\<close> holds. When it
  returns true and \<open>target_small > available_small\<close>, \<^verbatim>\<open>calculate_loaner_and_debtor\<close> makes
  small the debtor with \<open>debtor_count = target_small - available_small\<close> and medium the
  loaner with \<open>loaner_count = available_medium - target_medium\<close> (and
  \<open>target_medium < available_medium\<close>, so the subtraction does not wrap); symmetrically
  when \<open>target_medium > available_medium\<close>. The solver has an outcome unless, in a debug
  build, the assertion of \<^verbatim>\<open>calculate_optimal_small\<close> stops it (see C9).
\<close>

theorem exactly_one_class_grows:
  assumes "ZPageSizeSmall e = 2 ^ i" and "ZPageSizeMedium e = 2 ^ j" and "i \<le> j" and "j < 64"
    and "ZPageSizeSmall e * small_page_count h + ZPageSizeMedium e * medium_page_count h < 2 ^ 53"
    and "0 \<le> small_rate e" and "0 \<le> medium_rate e"
    and "is_double (small_rate e)" and "is_double (medium_rate e)"
    and "ZPageSizeSmall e * calculate_minimal_small e b
           + ZPageSizeMedium e * calculate_minimal_medium e b < 2 ^ 64"
  shows "(\<exists>necessary b'.
           determine_balance_necessity e (initialize_page_count h b) = Inr (necessary, b')
           \<and> ((target_small b' > available_small b' \<and> \<not> target_medium b' > available_medium b'
                 \<and> \<not> (target_small b' = available_small b' \<and> target_medium b' = available_medium b'))
              \<or> (\<not> target_small b' > available_small b' \<and> target_medium b' > available_medium b'
                 \<and> \<not> (target_small b' = available_small b' \<and> target_medium b' = available_medium b'))
              \<or> (\<not> target_small b' > available_small b' \<and> \<not> target_medium b' > available_medium b'
                 \<and> target_small b' = available_small b' \<and> target_medium b' = available_medium b'))
           \<and> (necessary \<and> target_small b' > available_small b' \<longrightarrow>
                 debtor_type (calculate_loaner_and_debtor b') = ZPageTypeSmall
               \<and> debtor_count (calculate_loaner_and_debtor b') = target_small b' - available_small b'
               \<and> loaner_type (calculate_loaner_and_debtor b') = ZPageTypeMedium
               \<and> loaner_count (calculate_loaner_and_debtor b') = available_medium b' - target_medium b'
               \<and> target_medium b' < available_medium b')
           \<and> (necessary \<and> target_medium b' > available_medium b' \<longrightarrow>
                 debtor_type (calculate_loaner_and_debtor b') = ZPageTypeMedium
               \<and> debtor_count (calculate_loaner_and_debtor b') = target_medium b' - available_medium b'
               \<and> loaner_type (calculate_loaner_and_debtor b') = ZPageTypeSmall
               \<and> loaner_count (calculate_loaner_and_debtor b') = available_small b' - target_small b'
               \<and> target_small b' < available_small b'))
       \<or> (debug_build e \<and> \<not> before_relocation b
            \<and> determine_balance_necessity e (initialize_page_count h b)
                = Inl (AssertFailed ''enough page cache''))"
proof -
  define b1 where "b1 = initialize_page_count h b"
  have init: "target_small b1 = available_small b1" "target_medium b1 = available_medium b1"
    by (simp_all add: b1_def initialize_page_count_fields)
  have Spos: "0 < ZPageSizeSmall e" and Mpos: "0 < ZPageSizeMedium e"
    using assms(1,2) by simp_all
  have B: "ZPageSizeSmall e * available_small b1 + ZPageSizeMedium e * available_medium b1 < 2 ^ 53"
    using assms(5) by (simp add: b1_def initialize_page_count_fields)
  have floors: "ZPageSizeSmall e * calculate_minimal_small e b1
           + ZPageSizeMedium e * calculate_minimal_medium e b1 < 2 ^ 64"
    using assms(10) by (simp add: b1_def initialize_page_count_fields)
  from determine_outcome [OF assms(1-4) B assms(6-9) floors]
  consider (returns) necessary b' where
      "determine_balance_necessity e b1 = Inr (necessary, b')"
      "available_small b' = available_small b1" "available_medium b' = available_medium b1"
      "ZPageSizeSmall e * target_small b' + ZPageSizeMedium e * target_medium b'
         = ZPageSizeSmall e * available_small b' + ZPageSizeMedium e * available_medium b'"
    | (stop) "debug_build e" "\<not> before_relocation b1"
      "determine_balance_necessity e b1 = Inl (AssertFailed ''enough page cache'')"
  proof (elim disjE conjE exE, goal_cases)
    case 1
    then show ?case
      using init by (intro that(1) [of False b1]) simp_all
  next
    case (2 ts tm)
    then show ?case
      by (intro that(1) [of "tm \<noteq> available_medium b1"
            "b1\<lparr>target_medium := tm, target_small := ts\<rparr>"]) simp_all
  next
    case 3
    then show ?case
      by (intro that(2)) simp_all
  qed
  then show ?thesis
  proof cases
    case returns
    note tot = returns(4)
    note gs = grow_shrink [OF Spos Mpos tot]
    have "ZPageSizeSmall e * target_small b' < 2 ^ 53"
      and "ZPageSizeMedium e * target_medium b' < 2 ^ 53"
      and "ZPageSizeSmall e * available_small b' < 2 ^ 53"
      and "ZPageSizeMedium e * available_medium b' < 2 ^ 53"
      using B tot returns(2,3) by simp_all
    moreover have "x \<le> ZPageSizeSmall e * x" "x \<le> ZPageSizeMedium e * x" for x
      using Spos Mpos by simp_all
    moreover have "(2::nat) ^ 53 \<le> 2 ^ 64"
      by simp
    ultimately have bounds: "target_small b' < 2 ^ 64" "target_medium b' < 2 ^ 64"
      "available_small b' < 2 ^ 64" "available_medium b' < 2 ^ 64"
      by (meson le_less_trans less_le_trans)+
    have one: "(target_small b' > available_small b' \<and> \<not> target_medium b' > available_medium b'
                 \<and> \<not> (target_small b' = available_small b' \<and> target_medium b' = available_medium b'))
              \<or> (\<not> target_small b' > available_small b' \<and> target_medium b' > available_medium b'
                 \<and> \<not> (target_small b' = available_small b' \<and> target_medium b' = available_medium b'))
              \<or> (\<not> target_small b' > available_small b' \<and> \<not> target_medium b' > available_medium b'
                 \<and> target_small b' = available_small b' \<and> target_medium b' = available_medium b')"
      using gs by (metis less_irrefl_nat less_asym)
    have small: "debtor_type (calculate_loaner_and_debtor b') = ZPageTypeSmall
               \<and> debtor_count (calculate_loaner_and_debtor b') = target_small b' - available_small b'
               \<and> loaner_type (calculate_loaner_and_debtor b') = ZPageTypeMedium
               \<and> loaner_count (calculate_loaner_and_debtor b') = available_medium b' - target_medium b'
               \<and> target_medium b' < available_medium b'"
      if "target_small b' > available_small b'"
      using that gs(1) [OF that] bounds
      by (simp add: calculate_loaner_and_debtor_def size_t_sub_small)
    have medium: "debtor_type (calculate_loaner_and_debtor b') = ZPageTypeMedium
               \<and> debtor_count (calculate_loaner_and_debtor b') = target_medium b' - available_medium b'
               \<and> loaner_type (calculate_loaner_and_debtor b') = ZPageTypeSmall
               \<and> loaner_count (calculate_loaner_and_debtor b') = available_small b' - target_small b'
               \<and> target_small b' < available_small b'"
      if "target_medium b' > available_medium b'"
      using that gs(2) [OF that] bounds
      by (simp add: calculate_loaner_and_debtor_def size_t_sub_small)
    from returns(1) one small medium show ?thesis
      unfolding b1_def by blast
  next
    case stop
    then show ?thesis
      by (simp add: b1_def initialize_page_count_fields)
  qed
qed

theorem exactly_one_class_grows_witness:
  "\<exists>necessary b'.
     determine_balance_necessity example_env (initialize_page_count example_heap example_balancer)
       = Inr (necessary, b')
     \<and> (necessary \<and> target_medium b' > available_medium b' \<longrightarrow>
           debtor_type (calculate_loaner_and_debtor b') = ZPageTypeMedium
         \<and> debtor_count (calculate_loaner_and_debtor b') = target_medium b' - available_medium b'
         \<and> loaner_type (calculate_loaner_and_debtor b') = ZPageTypeSmall
         \<and> loaner_count (calculate_loaner_and_debtor b') = available_small b' - target_small b')"
proof -
  have "ZPageSizeSmall example_env = 2 ^ 21" and "ZPageSizeMedium example_env = 2 ^ 25"
    and "(21::nat) \<le> 25" and "(25::nat) < 64"
    and "ZPageSizeSmall example_env * small_page_count example_heap
           + ZPageSizeMedium example_env * medium_page_count example_heap < 2 ^ 53"
    and "0 \<le> small_rate example_env" and "0 \<le> medium_rate example_env"
    and "is_double (small_rate example_env)" and "is_double (medium_rate example_env)"
    and "ZPageSizeSmall example_env * calculate_minimal_small example_env example_balancer
           + ZPageSizeMedium example_env * calculate_minimal_medium example_env example_balancer
         < 2 ^ 64"
    by (simp_all add: example_sizes is_double_numeral example_minimal_small
        example_minimal_medium small_page_count_def medium_page_count_def example_heap_def)
  from exactly_one_class_grows [OF this] show ?thesis
    by (auto simp: example_initialize example_determine)
qed

text \<open>
  C7 (scenario: rate-driven shrink of small). With 2 MiB small pages and 32 MiB medium pages,
  8640 small and 0 medium pages available, after relocation, lower bounds 800 and 50, and
  rates of 200 MiB/s (small) and 1 MiB/s (medium), the solver returns true with the targets
  \<open>(target_small, target_medium) = (7840, 50)\<close>.
\<close>

theorem rate_driven_shrink_of_small:
  assumes "ZPageSizeSmall e = 2097152" and "ZPageSizeMedium e = 33554432"
    and "\<not> before_relocation b"
    and "available_small b = 8640" and "available_medium b = 0"
    and "calculate_minimal_small e b = 800" and "calculate_minimal_medium e b = 50"
    and "small_rate e = 209715200" and "medium_rate e = 1048576"
  shows "determine_balance_necessity e b
           = Inr (True, b\<lparr>target_medium := 50, target_small := 7840\<rparr>)"
  using assms by (rule solver_200_to_1)

theorem rate_driven_shrink_of_small_witness:
  "determine_balance_necessity example_env example_balancer
     = Inr (True, example_balancer\<lparr>target_medium := 50, target_small := 7840\<rparr>)"
  using rate_driven_shrink_of_small [of example_env example_balancer]
  by (simp add: example_sizes example_counts example_minimal_small example_minimal_medium)





section \<open>Properties of the top-level flow\<close>

text \<open>
  C8 (cold cycle). If \<^verbatim>\<open>ZStatCycle::is_warm\<close> is false (and the two assertions of
  \<^verbatim>\<open>balance\<close> hold), \<^verbatim>\<open>need_to_balance\<close> returns false and \<^verbatim>\<open>balance\<close> returns with the
  balancer and the heap state as they were: the lock count, the page cache, the page table,
  the detached list, the physical pool and the balancer's fields are all unchanged.
\<close>

theorem cold_cycle_noop:
  assumes "\<not> is_warm e" and "ZBalancePageCache e" and "is_ConcurrentGC_thread e"
  shows "need_to_balance e (b, h) = Inr (False, b, h) \<and> balance e (b, h) = Inr (b, h)"
  using assms by (simp add: need_to_balance_def balance_def assert_that_def and_then_def)

theorem cold_cycle_noop_witness:
  "\<exists>b. ZPageCacheBalance (example_env\<lparr>is_warm := False\<rparr>) False 0 0 = Inr b
     \<and> need_to_balance (example_env\<lparr>is_warm := False\<rparr>) (b, example_heap)
         = Inr (False, b, example_heap)
     \<and> balance (example_env\<lparr>is_warm := False\<rparr>) (b, example_heap) = Inr (b, example_heap)"
proof -
  obtain b where b: "ZPageCacheBalance (example_env\<lparr>is_warm := False\<rparr>) False 0 0 = Inr b"
    by (simp add: ZPageCacheBalance_def assert_that_def example_env_def)
  have "\<not> is_warm (example_env\<lparr>is_warm := False\<rparr>)"
    and "ZBalancePageCache (example_env\<lparr>is_warm := False\<rparr>)"
    and "is_ConcurrentGC_thread (example_env\<lparr>is_warm := False\<rparr>)"
    by (simp_all add: example_env_def)
  from cold_cycle_noop [OF this, of b example_heap] b show ?thesis
    by blast
qed

end
